theory Spec2Isabelle
  imports Complex_Main "HOL-Library.Sublist"
begin

section \<open>Strings as the source reads them\<close>

text \<open>
  JavaScript strings are modelled as \<^typ>\<open>string\<close> (byte characters). Only the ASCII
  white space of \<^verbatim>\<open>String.prototype.trim\<close> and of the regular expression class
  \<^verbatim>\<open>\s\<close> is modelled: tab, line feed, vertical tab, form feed, carriage return, space.
\<close>

definition js_ws :: "char \<Rightarrow> bool" where
  "js_ws c = (of_char c \<in> {9::nat, 10, 11, 12, 13, 32})"

definition js_trim :: "string \<Rightarrow> string" where
  "js_trim s = rev (dropWhile js_ws (rev (dropWhile js_ws s)))"

definition is_digit :: "char \<Rightarrow> bool" where
  "is_digit c = (48 \<le> (of_char c :: nat) \<and> (of_char c :: nat) \<le> 57)"

text \<open>The value of a string of decimal digits, as \<^verbatim>\<open>parseInt(s, 10)\<close> reads it.\<close>

definition digits_value :: "string \<Rightarrow> nat" where
  "digits_value s = foldl (\<lambda>acc c. 10 * acc + (of_char c - 48)) 0 s"

section \<open>api-client.js: sizeToAspectRatio\<close>

text \<open>
  \<^verbatim>\<open>/^(\d+)x(\d+)$/i.exec(size)\<close>: one or more digits, the letter x in either case, one or
  more digits, and nothing else. The result is the pair \<^verbatim>\<open>(w, h)\<close> of the two
  \<^verbatim>\<open>parseInt\<close> values.
\<close>

definition parse_size :: "string \<Rightarrow> (nat \<times> nat) option" where
  "parse_size s =
     (let ws = takeWhile is_digit s; rest = dropWhile is_digit s in
      case rest of
        [] \<Rightarrow> None
      | c # hs \<Rightarrow>
          if ws \<noteq> [] \<and> (c = CHR ''x'' \<or> c = CHR ''X'') \<and> hs \<noteq> [] \<and> list_all is_digit hs
          then Some (digits_value ws, digits_value hs)
          else None)"

text \<open>The table \<^verbatim>\<open>ratioMap\<close>, in the order of the source.\<close>

definition ratioMap :: "(rat \<times> string) list" where
  "ratioMap =
     [(1, ''1:1''), (16 / 9, ''16:9''), (9 / 16, ''9:16''), (4 / 3, ''4:3''),
      (3 / 4, ''3:4''), (3 / 2, ''3:2''), (2 / 3, ''2:3'')]"

text \<open>
  The loop \<^verbatim>\<open>for (const {ratio: r, value} of ratioMap) if (Math.abs(ratio - r) < 0.1) return value\<close>
  returns at the first entry within the tolerance. The source computes in IEEE doubles;
  the model computes in exact rationals, which agrees with the source wherever the distance
  to an entry is not within rounding error of the tolerance itself.
\<close>

fun first_within :: "rat \<Rightarrow> (rat \<times> string) list \<Rightarrow> string option" where
  "first_within q [] = None"
| "first_within q ((r, v) # es) = (if \<bar>q - r\<bar> < 1 / 10 then Some v else first_within q es)"

text \<open>
  \<^verbatim>\<open>sizeToAspectRatio(size)\<close>. An empty size, a size that does not match, and a size with
  \<^verbatim>\<open>h = 0\<close> (where \<^verbatim>\<open>w / h\<close> is \<^verbatim>\<open>Infinity\<close> or \<^verbatim>\<open>NaN\<close> and no comparison succeeds)
  give the default \<^verbatim>\<open>"1:1"\<close>.
\<close>

definition sizeToAspectRatio :: "string \<Rightarrow> string" where
  "sizeToAspectRatio sz =
     (if sz = [] then ''1:1''
      else case parse_size sz of
        None \<Rightarrow> ''1:1''
      | Some (w, h) \<Rightarrow>
          if h = 0 then ''1:1''
          else (case first_within (of_nat w / of_nat h) ratioMap of
                  Some v \<Rightarrow> v
                | None \<Rightarrow> ''1:1''))"

section \<open>utils.js: data URLs, integers\<close>

text \<open>An image as the adapter produces it: \<^verbatim>\<open>{ base64, mimeType }\<close>.\<close>

record image =
  base64 :: string
  mimeType :: string

text \<open>
  \<^verbatim>\<open>parseDataUrl\<close>: the regular expression \<^verbatim>\<open>/^data:([^;]+);base64,(.+)$/s\<close>. The first
  group is the longest run of characters other than a semicolon, so the match is unique.
  The mime type is trimmed, and \<^verbatim>\<open>application/octet-stream\<close> when that leaves nothing.
\<close>

definition parseDataUrl :: "string \<Rightarrow> image option" where
  "parseDataUrl s =
     (if prefix ''data:'' s then
        (let rest = drop 5 s;
             mime = takeWhile (\<lambda>c. c \<noteq> CHR '';'') rest;
             after = dropWhile (\<lambda>c. c \<noteq> CHR '';'') rest
         in if mime \<noteq> [] \<and> prefix '';base64,'' after \<and> drop 8 after \<noteq> []
            then Some \<lparr>base64 = drop 8 after,
                       mimeType = (if js_trim mime = [] then ''application/octet-stream''
                                   else js_trim mime)\<rparr>
            else None)
      else None)"

definition stripDataUrlPrefix :: "string \<Rightarrow> string" where
  "stripDataUrlPrefix s = (case parseDataUrl s of Some parsed \<Rightarrow> base64 parsed | None \<Rightarrow> s)"

text \<open>
  An argument that the source passes through \<^verbatim>\<open>parseInt(String(value ?? ""), 10)\<close>: absent
  (\<^verbatim>\<open>null\<close> or \<^verbatim>\<open>undefined\<close>), an integer, or a string. A number with a fraction is the
  string \<^verbatim>\<open>String\<close> makes of it. An integer prints and parses back to itself (below
  \<^verbatim>\<open>1e21\<close>, where \<^verbatim>\<open>String\<close> switches to the exponent form).
\<close>

datatype num_arg = Absent | NumArg int | StrArg string

text \<open>
  \<^verbatim>\<open>parseInt(s, 10)\<close> on a string: leading white space is skipped, one sign is read, and
  the longest prefix of digits is the value; with no digit the result is \<^verbatim>\<open>NaN\<close>, here
  \<^const>\<open>None\<close>.
\<close>

definition parseInt :: "string \<Rightarrow> int option" where
  "parseInt s =
     (let t = dropWhile js_ws s;
          neg = (t \<noteq> [] \<and> hd t = CHR ''-'');
          u = (if t \<noteq> [] \<and> (hd t = CHR ''-'' \<or> hd t = CHR ''+'') then tl t else t);
          ds = takeWhile is_digit u
      in if ds = [] then None
         else Some (if neg then - int (digits_value ds) else int (digits_value ds)))"

definition parseIntOr :: "num_arg \<Rightarrow> int \<Rightarrow> int" where
  "parseIntOr v fallback =
     (case v of
        Absent \<Rightarrow> fallback
      | NumArg i \<Rightarrow> i
      | StrArg s \<Rightarrow> (case parseInt s of None \<Rightarrow> fallback | Some i \<Rightarrow> i))"

text \<open>\<^verbatim>\<open>clampInt(value, min, max) = Math.max(min, Math.min(max, n))\<close> on a finite value.\<close>

definition clampInt :: "int \<Rightarrow> int \<Rightarrow> int \<Rightarrow> int" where
  "clampInt v lo hi = max lo (min hi v)"

section \<open>api-client.js: the three strategies\<close>

subsection \<open>Messages, parameters, errors\<close>

text \<open>
  A message of the history: a role and a content that is a string or an array of parts.
  A part is \<^verbatim>\<open>{type: "text", text}\<close> or \<^verbatim>\<open>{type: "image_url", image_url: {url}}\<close>, the
  latter with the key \<^verbatim>\<open>_imageRefKey\<close> when the session file holds it.
\<close>

datatype content_part = TextPart string | ImageUrlPart string "string option"

datatype content = TextContent string | PartsContent "content_part list"

datatype role = User | Assistant

record message =
  msg_role :: role
  msg_content :: content

text \<open>\<^verbatim>\<open>GenerateParams\<close>: what a request is built from.\<close>

record params =
  p_model :: string
  p_prompt :: string
  p_size :: string
  p_n :: num_arg
  p_historyMessages :: "message list"
  p_inputImage :: "image option"

text \<open>
  What the source throws. \<^verbatim>\<open>HttpError\<close> carries the status and the body of a response
  that is not ok; every other failure is a plain \<^verbatim>\<open>Error\<close>, told apart here by what
  raised it (in the source, by its message): \<^verbatim>\<open>fetchWithTimeout\<close> on a time-out or a
  network failure, \<^verbatim>\<open>res.json()\<close> on a body that does not parse, \<^verbatim>\<open>fetchUrlAsBase64\<close> on
  a response that is not ok, and each strategy on a response without images.
\<close>

datatype transport_failure = Timeout | NetworkFailure

datatype reason =
    Transport transport_failure
  | InvalidJson
  | FetchImageFailed nat
  | NoImagesImagesApi
  | NoImagesGemini
  | NoImagesChat

datatype err = HttpError nat string | PlainError reason

subsection \<open>The upstream endpoint\<close>

text \<open>
  The outcome of \<^verbatim>\<open>fetchWithTimeout\<close>: it throws (time-out or network failure), or there
  is a response with a status, a text body and, when the body parses, its JSON.
\<close>

datatype 'j response = FetchThrows transport_failure | Response nat string "'j option"

definition res_ok :: "nat \<Rightarrow> bool" where
  "res_ok status = (200 \<le> status \<and> status \<le> 299)"

text \<open>
  The JSON of each protocol, with the fields the parsers read. A field that is absent or
  not of the type the parser tests for is \<^const>\<open>None\<close>; an array that is absent or not
  an array is the empty list, as \<^verbatim>\<open>Array.isArray(x) ? x : []\<close> makes it.
\<close>

record images_item =
  b64_json :: "string option"
  item_url :: "string option"

record inline_data =
  inline_payload :: "string option"
  inline_mime :: "string option"

record gemini_part =
  inlineData :: "inline_data option"
  inline_data_snake :: "inline_data option"

type_synonym gemini_json = "gemini_part list list"

datatype image_url_field = NoImageUrl | ImageUrlObject "string option" | ImageUrlString string

record chat_item =
  ci_inline_data :: "inline_data option"
  ci_type :: "string option"
  ci_image_url_url :: "string option"

record message_image =
  mi_image_url :: image_url_field
  mi_url :: "string option"
  mi_imageUrl :: "string option"

record chat_message =
  cm_content :: "chat_item list option"
  cm_images :: "message_image list option"

record chat_json =
  cj_candidates :: gemini_json
  cj_choices :: "chat_message option list"

datatype url_response = UrlThrows transport_failure | UrlResponse nat "string option" string

datatype strategy = ImagesApi | GeminiNative | ChatCompletions

text \<open>
  The endpoint answers a request knowing the calls made before it and the parameters the
  request is built from. \<^verbatim>\<open>get_url\<close> answers the GET of \<^verbatim>\<open>fetchUrlAsBase64\<close> with the
  status, the content-type header and the body in base64.
\<close>

record upstream =
  post_images :: "strategy list \<Rightarrow> params \<Rightarrow> images_item list response"
  post_gemini :: "strategy list \<Rightarrow> params \<Rightarrow> gemini_json response"
  post_chat :: "strategy list \<Rightarrow> params \<Rightarrow> chat_json response"
  get_url :: "string \<Rightarrow> url_response"

type_synonym 'a outcome = "(err + 'a) \<times> strategy list"

subsection \<open>Response parsers\<close>

definition truthy :: "string option \<Rightarrow> bool" where
  "truthy v = (case v of None \<Rightarrow> False | Some s \<Rightarrow> s \<noteq> [])"

text \<open>\<^verbatim>\<open>v || d\<close> on a string that may be absent.\<close>

definition or_default :: "string option \<Rightarrow> string \<Rightarrow> string" where
  "or_default v d = (case v of None \<Rightarrow> d | Some s \<Rightarrow> if s = [] then d else s)"

definition fetchUrlAsBase64 :: "upstream \<Rightarrow> string \<Rightarrow> err + image" where
  "fetchUrlAsBase64 up u =
     (case get_url up u of
        UrlThrows r \<Rightarrow> Inl (PlainError (Transport r))
      | UrlResponse status header body \<Rightarrow>
          if \<not> res_ok status then Inl (PlainError (FetchImageFailed status))
          else Inr \<lparr>base64 = body,
                    mimeType =
                      or_default
                        (Some (js_trim (takeWhile (\<lambda>c. c \<noteq> CHR '';'')
                           (case header of None \<Rightarrow> ''image/png'' | Some h \<Rightarrow> h))))
                        ''image/png''\<rparr>)"

text \<open>The errors of \<^verbatim>\<open>fetchUrlAsBase64\<close>: the transport failed, or the response was not ok.\<close>

definition fetch_error :: "err \<Rightarrow> bool" where
  "fetch_error e = (case e of PlainError (Transport r) \<Rightarrow> True | PlainError (FetchImageFailed n) \<Rightarrow> True
                    | other \<Rightarrow> False)"

text \<open>Runs \<^verbatim>\<open>f\<close> over a list in order; the first failure ends the loop.\<close>

fun collect :: "('a \<Rightarrow> err + image list) \<Rightarrow> 'a list \<Rightarrow> err + image list" where
  "collect f [] = Inr []"
| "collect f (x # xs) =
     (case f x of
        Inl e \<Rightarrow> Inl e
      | Inr a \<Rightarrow> (case collect f xs of Inl e \<Rightarrow> Inl e | Inr b \<Rightarrow> Inr (a @ b)))"

definition inline_image :: "inline_data option \<Rightarrow> image option" where
  "inline_image v =
     (case v of
        None \<Rightarrow> None
      | Some d \<Rightarrow>
          (case inline_payload d of
             None \<Rightarrow> None
           | Some s \<Rightarrow>
               if s = [] then None
               else Some \<lparr>base64 = s, mimeType = or_default (inline_mime d) ''image/png''\<rparr>))"

definition image_of_part :: "gemini_part \<Rightarrow> image list" where
  "image_of_part part =
     (case inline_image (inlineData part) of
        Some i \<Rightarrow> [i]
      | None \<Rightarrow> (case inline_image (inline_data_snake part) of Some i \<Rightarrow> [i] | None \<Rightarrow> []))"

definition parseGeminiResponse :: "gemini_json \<Rightarrow> image list" where
  "parseGeminiResponse candidates = concat (map (\<lambda>parts. concat (map image_of_part parts)) candidates)"

definition image_of_url :: "upstream \<Rightarrow> string \<Rightarrow> err + image list" where
  "image_of_url up u =
     (case parseDataUrl u of
        Some parsed \<Rightarrow> Inr [parsed]
      | None \<Rightarrow>
          if prefix ''http'' u
          then (case fetchUrlAsBase64 up u of Inl e \<Rightarrow> Inl e | Inr i \<Rightarrow> Inr [i])
          else Inr [])"

definition images_of_chat_item :: "upstream \<Rightarrow> chat_item \<Rightarrow> err + image list" where
  "images_of_chat_item up item =
     (case inline_image (ci_inline_data item) of
        Some i \<Rightarrow> Inr [i]
      | None \<Rightarrow>
          if ci_type item = Some ''image_url'' \<and> truthy (ci_image_url_url item)
          then image_of_url up (or_default (ci_image_url_url item) [])
          else Inr [])"

text \<open>
  \<^verbatim>\<open>img?.image_url?.url ?? img?.url ?? img?.imageUrl ?? img?.image_url ?? ""\<close>, and then the
  test that the result is a string; \<^const>\<open>None\<close> when it is not.
\<close>

definition message_image_url :: "message_image \<Rightarrow> string option" where
  "message_image_url img =
     (case mi_image_url img of
        ImageUrlObject (Some u) \<Rightarrow> Some u
      | other \<Rightarrow>
          (case mi_url img of
             Some u \<Rightarrow> Some u
           | None \<Rightarrow>
               (case mi_imageUrl img of
                  Some u \<Rightarrow> Some u
                | None \<Rightarrow>
                    (case other of
                       ImageUrlString s \<Rightarrow> Some s
                     | ImageUrlObject x \<Rightarrow> None
                     | NoImageUrl \<Rightarrow> Some []))))"

definition images_of_message_image :: "upstream \<Rightarrow> message_image \<Rightarrow> err + image list" where
  "images_of_message_image up img =
     (case message_image_url img of
        None \<Rightarrow> Inr []
      | Some u \<Rightarrow> if js_trim u = [] then Inr [] else image_of_url up u)"

definition images_of_choice :: "upstream \<Rightarrow> chat_message option \<Rightarrow> err + image list" where
  "images_of_choice up choice =
     (case choice of
        None \<Rightarrow> Inr []
      | Some m \<Rightarrow>
          (case collect (images_of_chat_item up) (case cm_content m of None \<Rightarrow> [] | Some c \<Rightarrow> c) of
             Inl e \<Rightarrow> Inl e
           | Inr a \<Rightarrow>
               (case collect (images_of_message_image up)
                       (case cm_images m of None \<Rightarrow> [] | Some c \<Rightarrow> c) of
                  Inl e \<Rightarrow> Inl e
                | Inr b \<Rightarrow> Inr (a @ b))))"

definition parseOpenAICompatibleResponse :: "upstream \<Rightarrow> chat_json \<Rightarrow> err + image list" where
  "parseOpenAICompatibleResponse up json =
     (case collect (images_of_choice up) (cj_choices json) of
        Inl e \<Rightarrow> Inl e
      | Inr imgs \<Rightarrow> Inr (parseGeminiResponse (cj_candidates json) @ imgs))"

text \<open>\<^verbatim>\<open>typeof v === "string" && v.trim()\<close>: the string when the test succeeds.\<close>

definition nonblank :: "string option \<Rightarrow> string option" where
  "nonblank v = (case v of None \<Rightarrow> None | Some s \<Rightarrow> if js_trim s = [] then None else Some s)"

definition images_of_item :: "upstream \<Rightarrow> images_item \<Rightarrow> err + image list" where
  "images_of_item up item =
     (case nonblank (b64_json item) of
        Some b \<Rightarrow>
          Inr [\<lparr>base64 = stripDataUrlPrefix b,
                mimeType = (case parseDataUrl b of Some parsed \<Rightarrow> mimeType parsed
                            | None \<Rightarrow> ''image/png'')\<rparr>]
      | None \<Rightarrow>
          (case nonblank (item_url item) of
             Some u \<Rightarrow> (case fetchUrlAsBase64 up u of Inl e \<Rightarrow> Inl e | Inr i \<Rightarrow> Inr [i])
           | None \<Rightarrow> Inr []))"

subsection \<open>The strategies\<close>

text \<open>
  Each strategy posts one request, which is logged, and parses the response. A response that
  is not ok raises \<^const>\<open>HttpError\<close>; a response that is ok and yields no image raises a
  plain error of its own.
\<close>

definition generateImagesViaImagesApi :: "upstream \<Rightarrow> params \<Rightarrow> strategy list \<Rightarrow> image list outcome" where
  "generateImagesViaImagesApi up ps calls =
     (let calls' = calls @ [ImagesApi] in
      case post_images up calls ps of
        FetchThrows r \<Rightarrow> (Inl (PlainError (Transport r)), calls')
      | Response status body json \<Rightarrow>
          if \<not> res_ok status then (Inl (HttpError status body), calls')
          else (case json of
                  None \<Rightarrow> (Inl (PlainError InvalidJson), calls')
                | Some items \<Rightarrow>
                    (case collect (images_of_item up) items of
                       Inl e \<Rightarrow> (Inl e, calls')
                     | Inr images \<Rightarrow>
                         if images = [] then (Inl (PlainError NoImagesImagesApi), calls')
                         else (Inr images, calls'))))"

definition generateImagesViaGeminiNative :: "upstream \<Rightarrow> params \<Rightarrow> strategy list \<Rightarrow> image list outcome" where
  "generateImagesViaGeminiNative up ps calls =
     (let calls' = calls @ [GeminiNative] in
      case post_gemini up calls ps of
        FetchThrows r \<Rightarrow> (Inl (PlainError (Transport r)), calls')
      | Response status body json \<Rightarrow>
          if \<not> res_ok status then (Inl (HttpError status body), calls')
          else (case json of
                  None \<Rightarrow> (Inl (PlainError InvalidJson), calls')
                | Some candidates \<Rightarrow>
                    (let images = parseGeminiResponse candidates in
                     if images = [] then (Inl (PlainError NoImagesGemini), calls')
                     else (Inr images, calls'))))"

definition generateImagesViaChatCompletions :: "upstream \<Rightarrow> params \<Rightarrow> strategy list \<Rightarrow> image list outcome" where
  "generateImagesViaChatCompletions up ps calls =
     (let calls' = calls @ [ChatCompletions] in
      case post_chat up calls ps of
        FetchThrows r \<Rightarrow> (Inl (PlainError (Transport r)), calls')
      | Response status body json \<Rightarrow>
          if \<not> res_ok status then (Inl (HttpError status body), calls')
          else (case json of
                  None \<Rightarrow> (Inl (PlainError InvalidJson), calls')
                | Some j \<Rightarrow>
                    (case parseOpenAICompatibleResponse up j of
                       Inl e \<Rightarrow> (Inl e, calls')
                     | Inr images \<Rightarrow>
                         if images = [] then (Inl (PlainError NoImagesChat), calls')
                         else (Inr images, calls'))))"

subsection \<open>generateMultiple, generateWithFallback, generateImages\<close>

text \<open>
  \<^verbatim>\<open>generateMultiple(generator, count)\<close>: the loop
  \<^verbatim>\<open>for (let i = 0; i < count; i += 1) { out.push(...await generator()); if (out.length >= count) break; }\<close>
  followed by \<^verbatim>\<open>out.slice(0, count)\<close>. A generator that throws ends the loop with its error.
\<close>

function generateMultiple_from ::
  "(strategy list \<Rightarrow> image list outcome) \<Rightarrow> nat \<Rightarrow> nat \<Rightarrow> image list \<Rightarrow> strategy list
    \<Rightarrow> image list outcome" where
  "generateMultiple_from generator count i out calls =
     (if i < count then
        (case generator calls of
           (Inl e, calls') \<Rightarrow> (Inl e, calls')
         | (Inr batch, calls') \<Rightarrow>
             if count \<le> length (out @ batch) then (Inr (take count (out @ batch)), calls')
             else generateMultiple_from generator count (i + 1) (out @ batch) calls')
      else (Inr (take count out), calls))"
  by pat_completeness auto
termination
  by (relation "measure (\<lambda>(generator, count, i, out, calls). count - i)") auto

declare generateMultiple_from.simps [simp del]

definition generateMultiple ::
  "(strategy list \<Rightarrow> image list outcome) \<Rightarrow> nat \<Rightarrow> strategy list \<Rightarrow> image list outcome" where
  "generateMultiple generator count calls = generateMultiple_from generator count 0 [] calls"

text \<open>\<^verbatim>\<open>err instanceof HttpError && (err.status === 404 || err.status === 400)\<close>.\<close>

definition fallback_eligible :: "err \<Rightarrow> bool" where
  "fallback_eligible e =
     (case e of HttpError status body \<Rightarrow> status = 404 \<or> status = 400 | PlainError r \<Rightarrow> False)"

definition generateWithFallback :: "upstream \<Rightarrow> params \<Rightarrow> nat \<Rightarrow> strategy list \<Rightarrow> image list outcome" where
  "generateWithFallback up ps count calls =
     (case generateImagesViaImagesApi up ps calls of
        (Inr images, calls1) \<Rightarrow> (Inr images, calls1)
      | (Inl e, calls1) \<Rightarrow>
          if fallback_eligible e then
            (case generateMultiple (generateImagesViaGeminiNative up ps) count calls1 of
               (Inr images, calls2) \<Rightarrow> (Inr images, calls2)
             | (Inl e2, calls2) \<Rightarrow>
                 generateMultiple (generateImagesViaChatCompletions up ps) count calls2)
          else (Inl e, calls1))"

text \<open>
  \<^verbatim>\<open>generateImages(params)\<close>, with \<^verbatim>\<open>config.imageMode\<close> as the first argument. The count
  is \<^verbatim>\<open>clampInt(parseIntOr(params?.n, 1), 1, 4)\<close>.
\<close>

definition request_count :: "num_arg \<Rightarrow> nat" where
  "request_count n = nat (clampInt (parseIntOr n 1) 1 4)"

definition generateImages :: "string \<Rightarrow> upstream \<Rightarrow> params \<Rightarrow> strategy list \<Rightarrow> image list outcome" where
  "generateImages mode up ps calls =
     (let count = request_count (p_n ps) in
      if mode = ''gemini'' then generateMultiple (generateImagesViaGeminiNative up ps) count calls
      else if mode = ''openai'' \<or> mode = ''images'' then generateImagesViaImagesApi up ps calls
      else if mode = ''auto'' then generateWithFallback up ps count calls
      else generateMultiple (generateImagesViaChatCompletions up ps) count calls)"

section \<open>config.js: the configuration the session store reads\<close>

text \<open>
  The values of the getters of \<^verbatim>\<open>config\<close>. \<^verbatim>\<open>imageMode\<close> is the value after the getter's
  \<^verbatim>\<open>trim().toLowerCase()\<close>.
\<close>

record config =
  imageMode :: string
  modelName :: string
  sessionTtlMs :: int
  sessionPersistEnabled :: bool
  sessionStorageDir :: string
  sessionImagesDir :: string
  defaultSize :: string
  defaultOutput :: string
  defaultOutDir :: string

text \<open>\<^verbatim>\<open>DEFAULTS.SESSION_MAX_HISTORY\<close>.\<close>

definition SESSION_MAX_HISTORY :: nat where
  "SESSION_MAX_HISTORY = 10"

section \<open>The session module with persistence\<close>

text \<open>
  The module that exports \<^verbatim>\<open>getOrCreateSession\<close>, \<^verbatim>\<open>updateSession\<close> and
  \<^verbatim>\<open>listAllSessions\<close> and keeps a file per session (in the sources it follows the image
  handler in \<^verbatim>\<open>image-handler.js\<close>, from line 216 on).
\<close>

subsection \<open>Sessions and files\<close>

record session =
  sess_id :: string
  messages :: "message list"
  lastImage :: "image option"
  createdAt :: int
  lastUsedAt :: int

text \<open>\<^verbatim>\<open>SessionImageRef\<close>: \<^verbatim>\<open>{ path, mimeType }\<close>.\<close>

record image_ref =
  ref_path :: string
  ref_mimeType :: string

text \<open>
  The object \<^verbatim>\<open>sessionToSave\<close> that \<^verbatim>\<open>saveSessionToFile\<close> writes as JSON. The field
  \<^verbatim>\<open>messageImageRefs\<close> is an object keyed by reference key, here an association list
  whose first entry for a key is the one in force; it is left out of the file when empty.
\<close>

record session_file =
  file_id :: string
  file_messages :: "message list"
  file_messageImageRefs :: "(string \<times> image_ref) list option"
  file_lastImageRef :: "image_ref option"
  file_createdAt :: int
  file_lastUsedAt :: int

text \<open>
  A file holds the bytes of an image or the JSON of a session. \<^verbatim>\<open>JSON.parse\<close> of
  \<^verbatim>\<open>JSON.stringify\<close> gives back the object written, so the JSON is kept as the object.
\<close>

datatype file_data = BinaryFile "nat list" | JsonFile session_file

text \<open>
  What the store runs on: \<^verbatim>\<open>Buffer.from(s, "base64")\<close> and
  \<^verbatim>\<open>buffer.toString("base64")\<close>, the bytes of a JSON text, which paths
  \<^verbatim>\<open>fs.writeFileSync\<close> throws on, and the two path functions of the request handler.
\<close>

record platform =
  base64_decode :: "string \<Rightarrow> nat list"
  base64_encode :: "nat list \<Rightarrow> string"
  json_bytes :: "session_file \<Rightarrow> nat list"
  write_fails :: "string \<Rightarrow> bool"
  resolve_dir :: "string \<Rightarrow> string"
  pictures_dir :: string

text \<open>
  The state: the map \<^verbatim>\<open>sessions\<close> of the module, the files on disk, and the log of the
  calls made to the endpoint. A session object is shared between the map and its users;
  the model returns, with each session, the key under which the map holds it, and an
  update writes the session back under that key.
\<close>

record state =
  sessions :: "string \<rightharpoonup> session"
  files :: "string \<rightharpoonup> file_data"
  call_log :: "strategy list"

subsection \<open>Paths and files\<close>

text \<open>\<^verbatim>\<open>path.join(dir, name)\<close>, without the normalisation of the path.\<close>

definition path_join :: "string \<Rightarrow> string \<Rightarrow> string" where
  "path_join dir name = dir @ ''/'' @ name"

definition getSessionFilePath :: "config \<Rightarrow> string \<Rightarrow> string" where
  "getSessionFilePath cfg sessionId = path_join (sessionStorageDir cfg) (sessionId @ ''.json'')"

definition getSessionImagePath :: "config \<Rightarrow> string \<Rightarrow> string" where
  "getSessionImagePath cfg sessionId = path_join (sessionImagesDir cfg) (sessionId @ ''_last.png'')"

text \<open>\<^verbatim>\<open>fs.writeFileSync\<close>: \<^const>\<open>None\<close> when it throws.\<close>

definition writeFileSync ::
  "platform \<Rightarrow> string \<Rightarrow> file_data \<Rightarrow> (string \<rightharpoonup> file_data) \<Rightarrow> (string \<rightharpoonup> file_data) option" where
  "writeFileSync pf path d fs = (if write_fails pf path then None else Some (fs(path \<mapsto> d)))"

definition file_bytes :: "platform \<Rightarrow> file_data \<Rightarrow> nat list" where
  "file_bytes pf d = (case d of BinaryFile b \<Rightarrow> b | JsonFile j \<Rightarrow> json_bytes pf j)"

definition saveImageToFile ::
  "config \<Rightarrow> platform \<Rightarrow> string \<Rightarrow> image \<Rightarrow> (string \<rightharpoonup> file_data)
    \<Rightarrow> image_ref option \<times> (string \<rightharpoonup> file_data)" where
  "saveImageToFile cfg pf sessionId img fs =
     (if \<not> sessionPersistEnabled cfg then (None, fs)
      else case writeFileSync pf (getSessionImagePath cfg sessionId)
                  (BinaryFile (base64_decode pf (base64 img))) fs of
             None \<Rightarrow> (None, fs)
           | Some fs' \<Rightarrow>
               (Some \<lparr>ref_path = getSessionImagePath cfg sessionId, ref_mimeType = mimeType img\<rparr>,
                fs'))"

text \<open>
  \<^verbatim>\<open>loadImageFromFile\<close>: the mime type of the reference, or \<^verbatim>\<open>image/png\<close> when it is
  empty (\<^verbatim>\<open>imageRef.mimeType || "image/png"\<close>).
\<close>

definition loadImageFromFile ::
  "platform \<Rightarrow> image_ref \<Rightarrow> (string \<rightharpoonup> file_data) \<Rightarrow> image option" where
  "loadImageFromFile pf r fs =
     (if ref_path r = [] then None
      else case fs (ref_path r) of
             None \<Rightarrow> None
           | Some d \<Rightarrow>
               Some \<lparr>base64 = base64_encode pf (file_bytes pf d),
                     mimeType = or_default (Some (ref_mimeType r)) ''image/png''\<rparr>)"

subsection \<open>Images of the history\<close>

text \<open>The decimal digits of a number, as a template string prints it.\<close>

fun show_nat :: "nat \<Rightarrow> string" where
  "show_nat n =
     (if n < 10 then [char_of (48 + n)] else show_nat (n div 10) @ [char_of (48 + n mod 10)])"

declare show_nat.simps [simp del]

text \<open>
  \<^verbatim>\<open>url.match(/^data:([^;]+);base64,(.+)$/)\<close>, without the flag \<^verbatim>\<open>s\<close>: the payload holds
  no line terminator. The groups are the mime type and the payload as written.
\<close>

definition match_data_url_line :: "string \<Rightarrow> (string \<times> string) option" where
  "match_data_url_line s =
     (if prefix ''data:'' s then
        (let rest = drop 5 s;
             mime = takeWhile (\<lambda>c. c \<noteq> CHR '';'') rest;
             after = dropWhile (\<lambda>c. c \<noteq> CHR '';'') rest
         in if mime \<noteq> [] \<and> prefix '';base64,'' after \<and> drop 8 after \<noteq> []
               \<and> list_all (\<lambda>c. of_char c \<noteq> (10::nat) \<and> of_char c \<noteq> (13::nat)) (drop 8 after)
            then Some (mime, drop 8 after)
            else None)
      else None)"

type_synonym extraction = "nat \<times> (string \<times> image_ref) list \<times> (string \<rightharpoonup> file_data)"

text \<open>
  One part in \<^verbatim>\<open>extractMessageImages\<close>, with the counter \<^verbatim>\<open>imageIndex\<close>, the references
  made so far and the files. A write that throws leaves the part as it was; the counter
  has advanced.
\<close>

definition extract_part ::
  "config \<Rightarrow> platform \<Rightarrow> string \<Rightarrow> content_part \<Rightarrow> extraction \<Rightarrow> content_part \<times> extraction" where
  "extract_part cfg pf sessionId part acc =
     (case part of
        TextPart t \<Rightarrow> (part, acc)
      | ImageUrlPart u key \<Rightarrow>
          (case match_data_url_line u of
             None \<Rightarrow> (part, acc)
           | Some (mime, payload) \<Rightarrow>
               (case acc of (imageIndex, refs, fs) \<Rightarrow>
                  (let refKey = ''img_'' @ show_nat imageIndex;
                       imagePath = path_join (sessionImagesDir cfg)
                                     (sessionId @ ''_msg_'' @ refKey @ ''.png'')
                   in case writeFileSync pf imagePath (BinaryFile (base64_decode pf payload)) fs of
                        None \<Rightarrow> (part, (imageIndex + 1, refs, fs))
                      | Some fs' \<Rightarrow>
                          (ImageUrlPart ''[image stored separately]'' (Some refKey),
                           (imageIndex + 1,
                            (refKey, \<lparr>ref_path = imagePath, ref_mimeType = mime\<rparr>) # refs,
                            fs'))))))"

fun extract_parts ::
  "config \<Rightarrow> platform \<Rightarrow> string \<Rightarrow> content_part list \<Rightarrow> extraction
    \<Rightarrow> content_part list \<times> extraction" where
  "extract_parts cfg pf sessionId [] acc = ([], acc)"
| "extract_parts cfg pf sessionId (p # ps) acc =
     (case extract_part cfg pf sessionId p acc of
        (p', acc') \<Rightarrow>
          (case extract_parts cfg pf sessionId ps acc' of
             (ps', acc'') \<Rightarrow> (p' # ps', acc'')))"

fun extract_messages ::
  "config \<Rightarrow> platform \<Rightarrow> string \<Rightarrow> message list \<Rightarrow> extraction
    \<Rightarrow> message list \<times> extraction" where
  "extract_messages cfg pf sessionId [] acc = ([], acc)"
| "extract_messages cfg pf sessionId (m # ms) acc =
     (case msg_content m of
        TextContent t \<Rightarrow>
          (case extract_messages cfg pf sessionId ms acc of
             (ms', acc') \<Rightarrow> (m # ms', acc'))
      | PartsContent parts \<Rightarrow>
          (case extract_parts cfg pf sessionId parts acc of
             (parts', acc') \<Rightarrow>
               (case extract_messages cfg pf sessionId ms acc' of
                  (ms', acc'') \<Rightarrow> (m\<lparr>msg_content := PartsContent parts'\<rparr> # ms', acc''))))"

definition extractMessageImages ::
  "config \<Rightarrow> platform \<Rightarrow> string \<Rightarrow> message list \<Rightarrow> (string \<rightharpoonup> file_data)
    \<Rightarrow> message list \<times> (string \<times> image_ref) list \<times> (string \<rightharpoonup> file_data)" where
  "extractMessageImages cfg pf sessionId ms fs =
     (case extract_messages cfg pf sessionId ms (0, [], fs) of
        (processed, (imageIndex, refs, fs')) \<Rightarrow> (processed, refs, fs'))"

text \<open>
  \<^verbatim>\<open>restoreMessageImages\<close>: a part with a reference key gets the data URL of the image the
  reference loads, when there is one, and loses the key.
\<close>

definition restore_part ::
  "platform \<Rightarrow> (string \<times> image_ref) list \<Rightarrow> (string \<rightharpoonup> file_data) \<Rightarrow> content_part \<Rightarrow> content_part" where
  "restore_part pf refs fs part =
     (case part of
        TextPart t \<Rightarrow> part
      | ImageUrlPart u key \<Rightarrow>
          if truthy key then
            (case map_of refs (or_default key []) of
               None \<Rightarrow> ImageUrlPart u None
             | Some r \<Rightarrow>
                 (case loadImageFromFile pf r fs of
                    None \<Rightarrow> ImageUrlPart u None
                  | Some img \<Rightarrow>
                      ImageUrlPart (''data:'' @ mimeType img @ '';base64,'' @ base64 img) None))
          else part)"

definition restoreMessageImages ::
  "platform \<Rightarrow> (string \<times> image_ref) list \<Rightarrow> (string \<rightharpoonup> file_data) \<Rightarrow> message list \<Rightarrow> message list" where
  "restoreMessageImages pf refs fs ms =
     map (\<lambda>m. case msg_content m of
                 TextContent t \<Rightarrow> m
               | PartsContent parts \<Rightarrow> m\<lparr>msg_content := PartsContent (map (restore_part pf refs fs) parts)\<rparr>)
         ms"

subsection \<open>Session files\<close>

text \<open>\<^verbatim>\<open>xs.slice(start)\<close> for an integer \<^verbatim>\<open>start\<close>; a negative one counts from the end.\<close>

definition js_slice :: "int \<Rightarrow> 'a list \<Rightarrow> 'a list" where
  "js_slice start xs =
     (if start < 0 then drop (nat (max (int (length xs) + start) 0)) xs else drop (nat start) xs)"

definition history_cap :: nat where
  "history_cap = SESSION_MAX_HISTORY * 2"

definition saveSessionToFile ::
  "config \<Rightarrow> platform \<Rightarrow> session \<Rightarrow> (string \<rightharpoonup> file_data) \<Rightarrow> (string \<rightharpoonup> file_data)" where
  "saveSessionToFile cfg pf s fs =
     (if \<not> sessionPersistEnabled cfg then fs
      else
        (case extractMessageImages cfg pf (sess_id s) (js_slice (- int history_cap) (messages s)) fs of
           (processedMessages, imageRefs, fs1) \<Rightarrow>
             (case (case lastImage s of
                      None \<Rightarrow> (None, fs1)
                    | Some img \<Rightarrow> saveImageToFile cfg pf (sess_id s) img fs1) of
                (lastImageRef, fs2) \<Rightarrow>
                  (case writeFileSync pf (getSessionFilePath cfg (sess_id s))
                          (JsonFile
                             \<lparr>file_id = sess_id s,
                              file_messages = processedMessages,
                              file_messageImageRefs = (if imageRefs = [] then None else Some imageRefs),
                              file_lastImageRef = lastImageRef,
                              file_createdAt = createdAt s,
                              file_lastUsedAt = lastUsedAt s\<rparr>)
                          fs2 of
                     None \<Rightarrow> fs2
                   | Some fs3 \<Rightarrow> fs3))))"

text \<open>
  \<^verbatim>\<open>loadSessionFromFile\<close>: nothing when persistence is off, the file is missing or it does
  not parse. A file that reads succeeds in being read.
\<close>

definition loadSessionFromFile ::
  "config \<Rightarrow> platform \<Rightarrow> string \<Rightarrow> (string \<rightharpoonup> file_data) \<Rightarrow> session option" where
  "loadSessionFromFile cfg pf sessionId fs =
     (if \<not> sessionPersistEnabled cfg then None
      else case fs (getSessionFilePath cfg sessionId) of
             None \<Rightarrow> None
           | Some (BinaryFile b) \<Rightarrow> None
           | Some (JsonFile j) \<Rightarrow>
               Some \<lparr>sess_id = file_id j,
                     messages = (case file_messageImageRefs j of
                                   None \<Rightarrow> file_messages j
                                 | Some refs \<Rightarrow> restoreMessageImages pf refs fs (file_messages j)),
                     lastImage = (case file_lastImageRef j of
                                    None \<Rightarrow> None
                                  | Some r \<Rightarrow> loadImageFromFile pf r fs),
                     createdAt = file_createdAt j,
                     lastUsedAt = file_lastUsedAt j\<rparr>)"

text \<open>
  \<^verbatim>\<open>deleteSessionFile\<close>: the session file, the file of the last image, and every file of
  the image directory whose name starts with the session id and an underscore.
\<close>

definition session_image_file :: "config \<Rightarrow> string \<Rightarrow> string \<Rightarrow> bool" where
  "session_image_file cfg sessionId p =
     (prefix (path_join (sessionImagesDir cfg) (sessionId @ ''_'')) p
      \<and> CHR ''/'' \<notin> set (drop (length (sessionImagesDir cfg) + 1) p))"

definition deleteSessionFile ::
  "config \<Rightarrow> string \<Rightarrow> (string \<rightharpoonup> file_data) \<Rightarrow> (string \<rightharpoonup> file_data)" where
  "deleteSessionFile cfg sessionId fs =
     (if \<not> sessionPersistEnabled cfg then fs
      else (\<lambda>p. if p = getSessionFilePath cfg sessionId \<or> p = getSessionImagePath cfg sessionId
                    \<or> session_image_file cfg sessionId p
                 then None else fs p))"

subsection \<open>getOrCreateSession, updateSession\<close>

text \<open>
  \<^verbatim>\<open>getOrCreateSession(sessionId)\<close> at the time \<^verbatim>\<open>now\<close> (\<^verbatim>\<open>Date.now()\<close>, one value for the
  call), with \<^verbatim>\<open>fresh\<close> the identifier \<^verbatim>\<open>generateSessionId()\<close> draws. The result is the
  key under which the map holds the session, the session, and the state.
\<close>

definition new_session :: "string \<Rightarrow> int \<Rightarrow> session" where
  "new_session fresh now =
     \<lparr>sess_id = fresh, messages = [], lastImage = None, createdAt = now, lastUsedAt = now\<rparr>"

definition create_session ::
  "config \<Rightarrow> platform \<Rightarrow> int \<Rightarrow> string \<Rightarrow> state \<Rightarrow> string \<times> session \<times> state" where
  "create_session cfg pf now fresh st =
     (fresh, new_session fresh now,
      st\<lparr>sessions := (sessions st)(fresh \<mapsto> new_session fresh now),
         files := saveSessionToFile cfg pf (new_session fresh now) (files st)\<rparr>)"

definition getOrCreateSession ::
  "config \<Rightarrow> platform \<Rightarrow> int \<Rightarrow> string \<Rightarrow> string option \<Rightarrow> state \<Rightarrow> string \<times> session \<times> state" where
  "getOrCreateSession cfg pf now fresh sessionId st =
     (if \<not> truthy sessionId then create_session cfg pf now fresh st
      else
        (let sid = or_default sessionId [] in
         case sessions st sid of
           Some s \<Rightarrow>
             (sid, s\<lparr>lastUsedAt := now\<rparr>,
              st\<lparr>sessions := (sessions st)(sid \<mapsto> s\<lparr>lastUsedAt := now\<rparr>)\<rparr>)
         | None \<Rightarrow>
             (case loadSessionFromFile cfg pf sid (files st) of
                None \<Rightarrow> create_session cfg pf now fresh st
              | Some fileSession \<Rightarrow>
                  if now - lastUsedAt fileSession \<le> sessionTtlMs cfg
                  then (sid, fileSession\<lparr>lastUsedAt := now\<rparr>,
                        st\<lparr>sessions := (sessions st)(sid \<mapsto> fileSession\<lparr>lastUsedAt := now\<rparr>)\<rparr>)
                  else create_session cfg pf now fresh
                         (st\<lparr>files := deleteSessionFile cfg sid (files st)\<rparr>))))"

definition isNewSession :: "string option \<Rightarrow> session \<Rightarrow> bool" where
  "isNewSession sessionId s = (\<not> truthy sessionId \<or> sessionId \<noteq> Some (sess_id s))"

text \<open>
  The text of the assistant message, \<^verbatim>\<open>[... N ...]\<close> with the count between two Chinese
  phrases, in the bytes of UTF-8.
\<close>

definition generated_note :: "nat \<Rightarrow> string" where
  "generated_note n =
     ''['' @ map char_of [229, 183, 178, 231, 148, 159, 230, 136, 144, 32 :: nat] @ show_nat n
     @ map char_of [32, 229, 188, 160, 229, 155, 190, 231, 137, 135 :: nat] @ '']''"

definition data_url :: "image \<Rightarrow> string" where
  "data_url img = ''data:'' @ mimeType img @ '';base64,'' @ base64 img"

definition appended_messages :: "content \<Rightarrow> image list \<Rightarrow> message list" where
  "appended_messages userContent images =
     \<lparr>msg_role = User, msg_content = userContent\<rparr>
     # (case images of
          [] \<Rightarrow> []
        | firstImage # rest \<Rightarrow>
            [\<lparr>msg_role = Assistant,
              msg_content = PartsContent
                [TextPart (generated_note (length images)), ImageUrlPart (data_url firstImage) None]\<rparr>])"

text \<open>
  \<^verbatim>\<open>updateSession(session, userContent, images)\<close> on the session held under \<^verbatim>\<open>key\<close>.
\<close>

definition updated_session :: "int \<Rightarrow> session \<Rightarrow> content \<Rightarrow> image list \<Rightarrow> session" where
  "updated_session now s userContent images =
     (let ms = messages s @ appended_messages userContent images in
      s\<lparr>messages := (if history_cap < length ms then js_slice (- int history_cap) ms else ms),
        lastImage := (case images of [] \<Rightarrow> lastImage s | firstImage # rest \<Rightarrow> Some firstImage),
        lastUsedAt := now\<rparr>)"

definition updateSession ::
  "config \<Rightarrow> platform \<Rightarrow> int \<Rightarrow> string \<Rightarrow> session \<Rightarrow> content \<Rightarrow> image list \<Rightarrow> state
    \<Rightarrow> session \<times> state" where
  "updateSession cfg pf now key s userContent images st =
     (updated_session now s userContent images,
      st\<lparr>sessions := (sessions st)(key \<mapsto> updated_session now s userContent images),
         files := saveSessionToFile cfg pf (updated_session now s userContent images) (files st)\<rparr>)"

definition buildUserContent :: "string \<Rightarrow> image option \<Rightarrow> content" where
  "buildUserContent prompt inputImage =
     (case inputImage of
        None \<Rightarrow> TextContent prompt
      | Some img \<Rightarrow> PartsContent [TextPart prompt, ImageUrlPart (data_url img) None])"

section \<open>session.js: the session module without persistence\<close>

text \<open>
  The file \<^verbatim>\<open>session.js\<close> holds the module as it was before persistence: sessions live in
  the map only, \<^verbatim>\<open>updateSession\<close> keeps the first 100 characters of the image in the
  history and does not trim the history.
\<close>

definition getOrCreateSession_memory ::
  "int \<Rightarrow> string \<Rightarrow> string option \<Rightarrow> state \<Rightarrow> string \<times> session \<times> state" where
  "getOrCreateSession_memory now fresh sessionId st =
     (case (if truthy sessionId then sessions st (or_default sessionId []) else None) of
        Some s \<Rightarrow>
          (or_default sessionId [], s\<lparr>lastUsedAt := now\<rparr>,
           st\<lparr>sessions := (sessions st)(or_default sessionId [] \<mapsto> s\<lparr>lastUsedAt := now\<rparr>)\<rparr>)
      | None \<Rightarrow>
          (fresh, new_session fresh now,
           st\<lparr>sessions := (sessions st)(fresh \<mapsto> new_session fresh now)\<rparr>))"

definition updateSession_memory ::
  "int \<Rightarrow> string \<Rightarrow> session \<Rightarrow> content \<Rightarrow> image list \<Rightarrow> state \<Rightarrow> session \<times> state" where
  "updateSession_memory now key s userContent images st =
     (let s' = s\<lparr>messages :=
                  messages s @ \<lparr>msg_role = User, msg_content = userContent\<rparr>
                  # (case images of
                       [] \<Rightarrow> []
                     | firstImage # rest \<Rightarrow>
                         [\<lparr>msg_role = Assistant,
                           msg_content = PartsContent
                             [TextPart (generated_note (length images)),
                              ImageUrlPart (''data:'' @ mimeType firstImage @ '';base64,''
                                            @ take 100 (base64 firstImage) @ ''...'') None]\<rparr>]),
                lastImage := (case images of [] \<Rightarrow> lastImage s | firstImage # rest \<Rightarrow> Some firstImage),
                lastUsedAt := now\<rparr>
      in (s', st\<lparr>sessions := (sessions st)(key \<mapsto> s')\<rparr>))"

section \<open>The request handler\<close>

text \<open>
  \<^verbatim>\<open>handleGenerateImage(args)\<close> of the server (in the sources it follows the configuration
  in \<^verbatim>\<open>config.js\<close>, lines 571 to 701), with the argument parsers it calls.
\<close>

subsection \<open>Arguments\<close>

datatype prompt_arg = NoPrompt | PromptString string | PromptArray "string list"

text \<open>
  The arguments of the tool call with every spelling the handler reads. An argument that
  is absent or \<^verbatim>\<open>null\<close> is \<^const>\<open>None\<close>; a size that is a number is the string
  \<^verbatim>\<open>String\<close> makes of it.
\<close>

record args =
  arg_prompt :: prompt_arg
  arg_session_id :: "string option"
  arg_sessionId :: "string option"
  arg_session :: "string option"
  arg_image :: "string option"
  arg_input_image :: "string option"
  arg_inputImage :: "string option"
  arg_size :: "string option"
  arg_n :: num_arg
  arg_output :: "string option"
  arg_outDir :: "string option"
  arg_out_dir :: "string option"
  arg_outdir :: "string option"
  arg_output_dir :: "string option"

text \<open>\<^verbatim>\<open>a ?? b\<close>.\<close>

definition nullish :: "'a option \<Rightarrow> 'a option \<Rightarrow> 'a option" where
  "nullish a b = (case a of Some x \<Rightarrow> Some x | None \<Rightarrow> b)"

fun js_join :: "string \<Rightarrow> string list \<Rightarrow> string" where
  "js_join sep [] = []"
| "js_join sep [x] = x"
| "js_join sep (x # y # ys) = x @ sep @ js_join sep (y # ys)"

definition parsePrompt :: "prompt_arg \<Rightarrow> string" where
  "parsePrompt raw =
     (case raw of
        NoPrompt \<Rightarrow> []
      | PromptString s \<Rightarrow> js_trim s
      | PromptArray xs \<Rightarrow> js_trim (js_join '' '' xs))"

definition parseSize :: "config \<Rightarrow> string option \<Rightarrow> string" where
  "parseSize cfg raw =
     (let sz = js_trim (case raw of None \<Rightarrow> defaultSize cfg | Some r \<Rightarrow> r) in
      if sz \<noteq> [] \<and> list_all is_digit sz then sz @ ''x'' @ sz else sz)"

definition to_lower :: "char \<Rightarrow> char" where
  "to_lower c =
     (if 65 \<le> (of_char c :: nat) \<and> (of_char c :: nat) \<le> 90 then char_of (of_char c + (32::nat)) else c)"

datatype output_kind = OutputImage | OutputPath

definition parseOutput :: "config \<Rightarrow> string option \<Rightarrow> output_kind" where
  "parseOutput cfg raw =
     (if map to_lower (js_trim (case raw of None \<Rightarrow> defaultOutput cfg | Some r \<Rightarrow> r))
           \<in> set [''image'', ''base64'', ''b64'', ''data'', ''inline'']
      then OutputImage else OutputPath)"

text \<open>
  \<^verbatim>\<open>resolveOutDir\<close>: empty for an empty directory, else the absolute path the platform
  makes of it.
\<close>

definition resolveOutDir :: "platform \<Rightarrow> string \<Rightarrow> string" where
  "resolveOutDir pf raw = (if js_trim raw = [] then [] else resolve_dir pf (js_trim raw))"

text \<open>
  \<^verbatim>\<open>isValidBase64(str)\<close>: the string is not blank, decodes to at least one byte, and the
  bytes encode to the string without its white space.
\<close>

definition isValidBase64 :: "platform \<Rightarrow> string \<Rightarrow> bool" where
  "isValidBase64 pf str =
     (js_trim str \<noteq> []
      \<and> base64_decode pf str \<noteq> []
      \<and> base64_encode pf (base64_decode pf str) = filter (\<lambda>c. \<not> js_ws c) str)"

text \<open>
  \<^verbatim>\<open>parseInputImage(args, isNew, session)\<close>. The test \<^verbatim>\<open>if (imageArg)\<close> holds for a string
  that is not empty.
\<close>

definition image_argument :: "args \<Rightarrow> string option" where
  "image_argument a = nullish (arg_image a) (nullish (arg_input_image a) (arg_inputImage a))"

definition parseInputImage :: "platform \<Rightarrow> args \<Rightarrow> bool \<Rightarrow> session \<Rightarrow> image option" where
  "parseInputImage pf a isNew s =
     (if truthy (image_argument a) then
        (let imageArg = or_default (image_argument a) [] in
         case parseDataUrl imageArg of
           Some parsed \<Rightarrow> Some \<lparr>base64 = base64 parsed, mimeType = mimeType parsed\<rparr>
         | None \<Rightarrow>
             if isValidBase64 pf imageArg then Some \<lparr>base64 = imageArg, mimeType = ''image/png''\<rparr>
             else None)
      else if \<not> isNew \<and> lastImage s \<noteq> None then lastImage s
      else None)"

subsection \<open>handleGenerateImage\<close>

text \<open>
  What the handler returns: the error result for an empty prompt, the error result for an
  empty output directory, or the images with the session id. Saving the images to files
  and the text of the result are left out.
\<close>

datatype tool_result = PromptEmpty | OutDirEmpty | Generated output_kind "image list" string

definition request_params :: "config \<Rightarrow> platform \<Rightarrow> args \<Rightarrow> bool \<Rightarrow> session \<Rightarrow> params" where
  "request_params cfg pf a isNew s =
     \<lparr>p_model = modelName cfg,
      p_prompt = parsePrompt (arg_prompt a),
      p_size = parseSize cfg (arg_size a),
      p_n = NumArg (clampInt (parseIntOr (arg_n a) 1) 1 4),
      p_historyMessages = messages s,
      p_inputImage = parseInputImage pf a isNew s\<rparr>"

definition session_argument :: "args \<Rightarrow> string option" where
  "session_argument a = nullish (arg_session_id a) (nullish (arg_sessionId a) (arg_session a))"

definition out_dir :: "config \<Rightarrow> platform \<Rightarrow> args \<Rightarrow> string" where
  "out_dir cfg pf a =
     (let outDir = resolveOutDir pf
            (or_default
               (nullish (arg_outDir a) (nullish (arg_out_dir a) (nullish (arg_outdir a)
                  (nullish (arg_output_dir a) (Some (defaultOutDir cfg))))))
               [])
      in if parseOutput cfg (arg_output a) = OutputPath \<and> outDir = [] then pictures_dir pf
         else outDir)"

text \<open>
  \<^verbatim>\<open>now\<close> is the time when the session is resolved, \<^verbatim>\<open>later\<close> the time when it is
  updated. An error the handler throws is \<^const>\<open>Inl\<close>; the adapter is the one callee
  that throws here.
\<close>

definition handleGenerateImage ::
  "config \<Rightarrow> platform \<Rightarrow> upstream \<Rightarrow> int \<Rightarrow> int \<Rightarrow> string \<Rightarrow> args \<Rightarrow> state
    \<Rightarrow> (err + tool_result) \<times> state" where
  "handleGenerateImage cfg pf up now later fresh a st =
     (if parsePrompt (arg_prompt a) = [] then (Inr PromptEmpty, st)
      else
        (case getOrCreateSession cfg pf now fresh (session_argument a) st of
           (key, s, st1) \<Rightarrow>
             if parseOutput cfg (arg_output a) = OutputPath \<and> out_dir cfg pf a = []
             then (Inr OutDirEmpty, st1)
             else
               (case generateImages (imageMode cfg) up
                       (request_params cfg pf a (isNewSession (session_argument a) s) s)
                       (call_log st1) of
                  (Inl e, lg) \<Rightarrow> (Inl e, st1\<lparr>call_log := lg\<rparr>)
                | (Inr images, lg) \<Rightarrow>
                    (case updateSession cfg pf later key s
                            (buildUserContent (parsePrompt (arg_prompt a))
                               (parseInputImage pf a (isNewSession (session_argument a) s) s))
                            images (st1\<lparr>call_log := lg\<rparr>) of
                       (s', st2) \<Rightarrow>
                         (Inr (Generated (parseOutput cfg (arg_output a)) images (sess_id s')), st2)))))"

section \<open>Concrete endpoints and requests\<close>

text \<open>Endpoints and requests at which the properties below are evaluated.\<close>

definition image_a :: image where
  "image_a = \<lparr>base64 = ''AAAA'', mimeType = ''image/png''\<rparr>"

definition image_b :: image where
  "image_b = \<lparr>base64 = ''BBBB'', mimeType = ''image/png''\<rparr>"

definition request1 :: params where
  "request1 =
     \<lparr>p_model = ''m'', p_prompt = ''a red circle'', p_size = ''1024x1024'', p_n = NumArg 1,
      p_historyMessages = [], p_inputImage = None\<rparr>"

definition part_a :: gemini_part where
  "part_a = \<lparr>inlineData = Some \<lparr>inline_payload = Some ''AAAA'', inline_mime = None\<rparr>,
              inline_data_snake = None\<rparr>"

text \<open>images-generation answers 404, native-generation answers with one image.\<close>

definition native_only :: upstream where
  "native_only =
     \<lparr>post_images = (\<lambda>calls ps. Response 404 ''not found'' None),
      post_gemini = (\<lambda>calls ps. Response 200 [] (Some [[part_a]])),
      post_chat = (\<lambda>calls ps. Response 500 ''unavailable'' None),
      get_url = (\<lambda>u. UrlThrows NetworkFailure)\<rparr>"

text \<open>images-generation answers with two items whatever the request asks for.\<close>

definition two_items :: upstream where
  "two_items =
     \<lparr>post_images = (\<lambda>calls ps. Response 200 []
         (Some [\<lparr>b64_json = Some ''AAAA'', item_url = None\<rparr>,
                \<lparr>b64_json = Some ''BBBB'', item_url = None\<rparr>])),
      post_gemini = (\<lambda>calls ps. Response 500 ''unavailable'' None),
      post_chat = (\<lambda>calls ps. Response 500 ''unavailable'' None),
      get_url = (\<lambda>u. UrlThrows NetworkFailure)\<rparr>"

text \<open>
  images-generation answers 404, native-generation answers 200 with no image in the
  response, chat-completions answers with one image.
\<close>

definition empty_native :: upstream where
  "empty_native =
     \<lparr>post_images = (\<lambda>calls ps. Response 404 ''not found'' None),
      post_gemini = (\<lambda>calls ps. Response 200 [] (Some [])),
      post_chat = (\<lambda>calls ps. Response 200 [] (Some \<lparr>cj_candidates = [[part_a]], cj_choices = []\<rparr>)),
      get_url = (\<lambda>u. UrlThrows NetworkFailure)\<rparr>"

text \<open>chat-completions answers every call with one image.\<close>

definition one_image_json :: chat_json where
  "one_image_json =
     \<lparr>cj_candidates =
        [[\<lparr>inlineData = Some \<lparr>inline_payload = Some ''AAAA'', inline_mime = None\<rparr>,
           inline_data_snake = None\<rparr>]],
      cj_choices = []\<rparr>"

definition chat_only :: upstream where
  "chat_only =
     \<lparr>post_images = (\<lambda>calls ps. Response 404 ''not found'' None),
      post_gemini = (\<lambda>calls ps. Response 500 ''unavailable'' None),
      post_chat = (\<lambda>calls ps. Response 200 [] (Some one_image_json)),
      get_url = (\<lambda>u. UrlThrows NetworkFailure)\<rparr>"

definition request3 :: params where
  "request3 =
     \<lparr>p_model = ''m'', p_prompt = ''a red circle'', p_size = ''1024x1024'', p_n = NumArg 3,
      p_historyMessages = [], p_inputImage = None\<rparr>"

text \<open>A configuration, a platform and states for the session store.\<close>


definition cfg0 :: config where
  "cfg0 =
     \<lparr>imageMode = ''chat'', modelName = ''m'', sessionTtlMs = 1000, sessionPersistEnabled = True,
      sessionStorageDir = ''/data/sessions'', sessionImagesDir = ''/data/images'',
      defaultSize = ''1024x1024'', defaultOutput = ''image'', defaultOutDir = []\<rparr>"

text \<open>
  A platform on which every write succeeds. The codec is a stand-in that takes a character
  for a byte; the properties that are evaluated here hold for every codec.
\<close>

definition pf0 :: platform where
  "pf0 =
     \<lparr>base64_decode = map of_char, base64_encode = map char_of, json_bytes = (\<lambda>j. []),
      write_fails = (\<lambda>p. False), resolve_dir = (\<lambda>d. d), pictures_dir = ''/home/u/Pictures''\<rparr>"


definition session1 :: session where
  "session1 =
     \<lparr>sess_id = ''s1'',
      messages = [\<lparr>msg_role = User, msg_content = TextContent ''a red circle''\<rparr>],
      lastImage = Some image_a, createdAt = 0, lastUsedAt = 0\<rparr>"

text \<open>The session \<^verbatim>\<open>s1\<close> is in memory and was last used at time 0.\<close>

definition stale_state :: state where
  "stale_state = \<lparr>sessions = [''s1'' \<mapsto> session1], files = Map.empty, call_log = []\<rparr>"

text \<open>The session \<^verbatim>\<open>s1\<close> is on disk only and was last used at time 0.\<close>

definition expired_file_state :: state where
  "expired_file_state =
     \<lparr>sessions = Map.empty,
      files = [''/data/sessions/s1.json'' \<mapsto>
                 JsonFile \<lparr>file_id = ''s1'',
                           file_messages = [\<lparr>msg_role = User, msg_content = TextContent ''a red circle''\<rparr>],
                           file_messageImageRefs = None, file_lastImageRef = None,
                           file_createdAt = 0, file_lastUsedAt = 0\<rparr>],
      call_log = []\<rparr>"

text \<open>Arguments of a tool call: a prompt only, and the same with the session id \<^verbatim>\<open>s1\<close>.\<close>

definition args0 :: args where
  "args0 =
     \<lparr>arg_prompt = PromptString ''make it blue'',
      arg_session_id = None, arg_sessionId = None, arg_session = None,
      arg_image = None, arg_input_image = None, arg_inputImage = None,
      arg_size = None, arg_n = Absent, arg_output = None,
      arg_outDir = None, arg_out_dir = None, arg_outdir = None, arg_output_dir = None\<rparr>"

definition args_s1 :: args where
  "args_s1 = args0\<lparr>arg_session_id := Some ''s1''\<rparr>"

section \<open>Properties of sizeToAspectRatio\<close>

lemma parse_size_1024x1536: "parse_size ''1024x1536'' = Some (1024, 1536)"
  by (simp add: parse_size_def is_digit_def digits_value_def)

text \<open>
  Claim C8 (the size is translated to the nearest aspect ratio of the table). The size
  \<^verbatim>\<open>1024x1536\<close> has the ratio 2:3 exactly, an entry of the table at distance 0, and
  \<^verbatim>\<open>sizeToAspectRatio\<close> returns \<^verbatim>\<open>"3:4"\<close>, the earlier entry whose tolerance window
  also contains 2/3.
\<close>

theorem sizeToAspectRatio_1024x1536:
  "sizeToAspectRatio ''1024x1536'' = ''3:4''
   \<and> (2 / 3, ''2:3'') \<in> set ratioMap
   \<and> \<bar>(of_nat 1024 / of_nat 1536 :: rat) - 2 / 3\<bar> = 0
   \<and> \<bar>(of_nat 1024 / of_nat 1536 :: rat) - 3 / 4\<bar> = 1 / 12"
  by (simp add: sizeToAspectRatio_def parse_size_1024x1536 ratioMap_def)

text \<open>
  The entry 2:3 is never chosen: whenever a ratio is within the tolerance of 2/3, it is
  within the tolerance of 9/16 or of 3/4, and both come earlier in the table.
\<close>

lemma first_within_never_2_3: "first_within q ratioMap \<noteq> Some ''2:3''"
proof -
  have "\<not> (\<bar>q - 2 / 3\<bar> < 1 / 10 \<and> \<not> \<bar>q - 3 / 4\<bar> < 1 / 10 \<and> \<not> \<bar>q - 9 / 16\<bar> < 1 / 10)"
    by (simp add: abs_if split: if_splits) linarith
  then show ?thesis by (auto simp: ratioMap_def)
qed

theorem sizeToAspectRatio_never_2_3: "sizeToAspectRatio sz \<noteq> ''2:3''"
  using first_within_never_2_3
  by (auto simp: sizeToAspectRatio_def split: option.splits)

section \<open>Properties of parseDataUrl\<close>

theorem parseDataUrl_examples:
  "parseDataUrl ''data:image/png;base64,AAAA'' = Some \<lparr>base64 = ''AAAA'', mimeType = ''image/png''\<rparr>
   \<and> parseDataUrl ''not a uri'' = None"
  by (simp add: parseDataUrl_def js_trim_def js_ws_def)

section \<open>Properties of generateMultiple\<close>

lemma gm_exit: "\<not> i < count \<Longrightarrow> generateMultiple_from gen count i out calls = (Inr (take count out), calls)"
  by (simp add: generateMultiple_from.simps)

lemma gm_throw:
  "i < count \<Longrightarrow> gen calls = (Inl e, calls') \<Longrightarrow> generateMultiple_from gen count i out calls = (Inl e, calls')"
  by (simp add: generateMultiple_from.simps [of gen count i out calls])

lemma gm_break:
  "i < count \<Longrightarrow> gen calls = (Inr batch, calls') \<Longrightarrow> count \<le> length (out @ batch)
   \<Longrightarrow> generateMultiple_from gen count i out calls = (Inr (take count (out @ batch)), calls')"
  by (simp add: generateMultiple_from.simps [of gen count i out calls])

lemma gm_continue:
  "i < count \<Longrightarrow> gen calls = (Inr batch, calls') \<Longrightarrow> \<not> count \<le> length (out @ batch)
   \<Longrightarrow> generateMultiple_from gen count i out calls
       = generateMultiple_from gen count (i + 1) (out @ batch) calls'"
  by (simp add: generateMultiple_from.simps [of gen count i out calls])

lemma gm_from_calls:
  assumes "\<And>lg. snd (gen lg) = lg @ [s]"
  shows "\<exists>k. k \<le> count - i \<and> snd (generateMultiple_from gen count i out calls) = calls @ replicate k s"
  using assms
proof (induction gen count i out calls rule: generateMultiple_from.induct)
  case (1 generator count i out calls)
  show ?case
  proof (cases "i < count")
    case False
    then show ?thesis by (simp add: gm_exit)
  next
    case True
    obtain r calls' where g: "generator calls = (r, calls')" by (cases "generator calls")
    from "1.prems" [of calls] g have c': "calls' = calls @ [s]" by simp
    from True have one: "1 \<le> count - i" by simp
    show ?thesis
    proof (cases r)
      case (Inl e)
      with True g c' have "snd (generateMultiple_from generator count i out calls) = calls @ replicate 1 s"
        by (simp add: gm_throw)
      with one show ?thesis by blast
    next
      case (Inr batch)
      show ?thesis
      proof (cases "count \<le> length (out @ batch)")
        case True
        with \<open>i < count\<close> g c' Inr
        have "snd (generateMultiple_from generator count i out calls) = calls @ replicate 1 s"
          by (simp add: gm_break)
        with one show ?thesis by blast
      next
        case False
        from "1.IH" [OF \<open>i < count\<close> g [symmetric] Inr False "1.prems"]
        obtain k where k: "k \<le> count - (i + 1)"
          "snd (generateMultiple_from generator count (i + 1) (out @ batch) calls') = calls' @ replicate k s"
          by blast
        from False \<open>i < count\<close> g Inr
        have "generateMultiple_from generator count i out calls
              = generateMultiple_from generator count (i + 1) (out @ batch) calls'"
          by (simp add: gm_continue)
        with k c' have "snd (generateMultiple_from generator count i out calls) = calls @ replicate (Suc k) s"
          by (simp add: replicate_app_Cons_same)
        moreover from k \<open>i < count\<close> have "Suc k \<le> count - i" by simp
        ultimately show ?thesis by blast
      qed
    qed
  qed
qed

lemma gm_from_length:
  assumes "\<And>lg batch lg'. gen lg = (Inr batch, lg') \<Longrightarrow> batch \<noteq> []"
  shows "i \<le> length out \<Longrightarrow> generateMultiple_from gen count i out calls = (Inr res, calls')
         \<Longrightarrow> length res = count"
  using assms
proof (induction gen count i out calls rule: generateMultiple_from.induct)
  case (1 generator count i out calls)
  show ?case
  proof (cases "i < count")
    case False
    with "1.prems"(1,2) show ?thesis by (auto simp: gm_exit)
  next
    case True
    obtain r c where g: "generator calls = (r, c)" by (cases "generator calls")
    show ?thesis
    proof (cases r)
      case (Inl e)
      with True g "1.prems"(2) show ?thesis by (simp add: gm_throw)
    next
      case (Inr batch)
      with g "1.prems"(3) have ne: "batch \<noteq> []" by blast
      show ?thesis
      proof (cases "count \<le> length (out @ batch)")
        case True
        with \<open>i < count\<close> g Inr "1.prems"(2) show ?thesis by (auto simp: gm_break)
      next
        case False
        from ne "1.prems"(1) have le: "i + 1 \<le> length (out @ batch)"
          by (cases batch) auto
        from False \<open>i < count\<close> g Inr "1.prems"(2)
        have "generateMultiple_from generator count (i + 1) (out @ batch) c = (Inr res, calls')"
          by (simp add: gm_continue)
        from "1.IH" [OF \<open>i < count\<close> g [symmetric] Inr False le this "1.prems"(3)]
        show ?thesis by simp
      qed
    qed
  qed
qed

lemma gm_from_run:
  assumes logs: "\<And>lg. snd (gen lg) = lg @ [s]"
  shows "i < k \<Longrightarrow> k \<le> count
     \<Longrightarrow> (\<And>j. i \<le> j \<Longrightarrow> j < k \<Longrightarrow> fst (gen (calls @ replicate j s)) = Inr (b j))
     \<Longrightarrow> length out + (\<Sum>j = i..<k - 1. length (b j)) < count
     \<Longrightarrow> count \<le> length out + (\<Sum>j = i..<k. length (b j))
     \<Longrightarrow> generateMultiple_from gen count i out (calls @ replicate i s)
         = (Inr (take count (out @ concat (map b [i..<k]))), calls @ replicate k s)"
proof (induction "k - i" arbitrary: i out)
  case 0
  then show ?case by simp
next
  case (Suc n)
  from Suc.prems have ic: "i < count" by simp
  have g: "gen (calls @ replicate i s) = (Inr (b i), calls @ replicate (Suc i) s)"
    using Suc.prems(3) [of i] Suc.prems(1) logs [of "calls @ replicate i s"]
    by (cases "gen (calls @ replicate i s)") (simp add: replicate_append_same)
  show ?case
  proof (cases "k = Suc i")
    case True
    with Suc.prems have "count \<le> length (out @ b i)" by simp
    with ic g True show ?thesis by (simp add: gm_break)
  next
    case False
    with Suc.prems(1) have lt: "Suc i < k" by simp
    then have i1: "i < k - 1" by simp
    have "(\<Sum>j = i..<k - 1. length (b j)) = length (b i) + (\<Sum>j = Suc i..<k - 1. length (b j))"
      using i1 by (simp add: sum.atLeast_Suc_lessThan)
    with Suc.prems(4) have before: "length (out @ b i) + (\<Sum>j = Suc i..<k - 1. length (b j)) < count"
      by simp
    then have nb: "\<not> count \<le> length (out @ b i)" by simp
    have "(\<Sum>j = i..<k. length (b j)) = length (b i) + (\<Sum>j = Suc i..<k. length (b j))"
      using Suc.prems(1) by (simp add: sum.atLeast_Suc_lessThan)
    with Suc.prems(5) have after: "count \<le> length (out @ b i) + (\<Sum>j = Suc i..<k. length (b j))"
      by simp
    have n: "n = k - Suc i" using Suc.hyps(2) by simp
    have IH: "generateMultiple_from gen count (Suc i) (out @ b i) (calls @ replicate (Suc i) s)
        = (Inr (take count ((out @ b i) @ concat (map b [Suc i..<k]))), calls @ replicate k s)"
      using Suc.hyps(1) [OF n lt Suc.prems(2) _ before after] Suc.prems(3) by simp
    have "[i..<k] = i # [Suc i..<k]" using Suc.prems(1) by (simp add: upt_conv_Cons)
    with IH ic g nb show ?thesis by (simp add: gm_continue)
  qed
qed


lemma chat_logs: "snd (generateImagesViaChatCompletions up ps lg) = lg @ [ChatCompletions]"
  by (simp add: generateImagesViaChatCompletions_def Let_def
           split: response.splits option.splits sum.splits)

lemma gemini_logs: "snd (generateImagesViaGeminiNative up ps lg) = lg @ [GeminiNative]"
  by (simp add: generateImagesViaGeminiNative_def Let_def
           split: response.splits option.splits sum.splits)

lemma images_logs: "snd (generateImagesViaImagesApi up ps lg) = lg @ [ImagesApi]"
  by (simp add: generateImagesViaImagesApi_def Let_def
           split: response.splits option.splits sum.splits)

lemma chat_nonempty: "generateImagesViaChatCompletions up ps lg = (Inr batch, lg') \<Longrightarrow> batch \<noteq> []"
  by (auto simp: generateImagesViaChatCompletions_def Let_def
           split: response.splits option.splits sum.splits if_splits)

lemma gemini_nonempty: "generateImagesViaGeminiNative up ps lg = (Inr batch, lg') \<Longrightarrow> batch \<noteq> []"
  by (auto simp: generateImagesViaGeminiNative_def Let_def
           split: response.splits option.splits sum.splits if_splits)

lemma images_nonempty: "generateImagesViaImagesApi up ps lg = (Inr batch, lg') \<Longrightarrow> batch \<noteq> []"
  by (auto simp: generateImagesViaImagesApi_def Let_def
           split: response.splits option.splits sum.splits if_splits)

lemma request_count_bounds: "1 \<le> request_count n \<and> request_count n \<le> 4"
  unfolding request_count_def clampInt_def by linarith

lemma generateImages_chat:
  "generateImages ''chat'' up ps calls
   = generateMultiple (generateImagesViaChatCompletions up ps) (request_count (p_n ps)) calls"
  by (simp add: generateImages_def)

text \<open>
  Claim C7. In chat mode: (1) with a count of 3 and an endpoint whose every call yields
  exactly one image, \<^verbatim>\<open>generateImages\<close> makes exactly three calls and returns three
  images; (2) the number of calls is between 1 and the count; (3) a result has exactly
  count images; (4) the loop stops at the first call \<^verbatim>\<open>k\<close> after which at least count
  images are accumulated (fewer than count after \<^verbatim>\<open>k - 1\<close> calls), and the result is the
  first count images of the batches in order.
\<close>

theorem chat_mode_repeated_calls:
  "(p_n ps = NumArg 3
      \<longrightarrow> (\<forall>lg. \<exists>img. generateImagesViaChatCompletions up ps lg = (Inr [img], lg @ [ChatCompletions]))
      \<longrightarrow> (\<exists>imgs. generateImages ''chat'' up ps calls = (Inr imgs, calls @ replicate 3 ChatCompletions)
                  \<and> length imgs = 3))
   \<and> (\<exists>k. 1 \<le> k \<and> k \<le> request_count (p_n ps)
          \<and> snd (generateImages ''chat'' up ps calls) = calls @ replicate k ChatCompletions)
   \<and> (\<forall>imgs calls'. generateImages ''chat'' up ps calls = (Inr imgs, calls')
          \<longrightarrow> length imgs = request_count (p_n ps))
   \<and> (\<forall>k b. 0 < k \<and> k \<le> request_count (p_n ps)
          \<and> (\<forall>j<k. fst (generateImagesViaChatCompletions up ps (calls @ replicate j ChatCompletions))
                      = Inr (b j))
          \<and> (\<Sum>j = 0..<k - 1. length (b j)) < request_count (p_n ps)
          \<and> request_count (p_n ps) \<le> (\<Sum>j = 0..<k. length (b j))
        \<longrightarrow> generateImages ''chat'' up ps calls
            = (Inr (take (request_count (p_n ps)) (concat (map b [0..<k]))),
               calls @ replicate k ChatCompletions))"
proof -
  let ?gen = "generateImagesViaChatCompletions up ps"
  let ?count = "request_count (p_n ps)"
  have run: "generateMultiple ?gen ?count calls
        = (Inr (take ?count (concat (map b [0..<k]))), calls @ replicate k ChatCompletions)"
    if "0 < k" "k \<le> ?count"
       "\<forall>j<k. fst (?gen (calls @ replicate j ChatCompletions)) = Inr (b j)"
       "(\<Sum>j = 0..<k - 1. length (b j)) < ?count" "?count \<le> (\<Sum>j = 0..<k. length (b j))"
    for k b
    using gm_from_run [of ?gen ChatCompletions 0 k ?count calls b "[]"] that
    by (simp add: generateMultiple_def chat_logs)
  have scenario: "\<exists>imgs. generateImages ''chat'' up ps calls
          = (Inr imgs, calls @ replicate 3 ChatCompletions) \<and> length imgs = 3"
    if n: "p_n ps = NumArg 3"
      and one: "\<forall>lg. \<exists>img. ?gen lg = (Inr [img], lg @ [ChatCompletions])"
  proof -
    from n have c: "?count = 3" by (simp add: request_count_def parseIntOr_def clampInt_def)
    define b where "b j = (case fst (?gen (calls @ replicate j ChatCompletions)) of Inr x \<Rightarrow> x | Inl e \<Rightarrow> [])" for j
    have bj: "fst (?gen (calls @ replicate j ChatCompletions)) = Inr (b j) \<and> length (b j) = 1" for j
      using one [rule_format, of "calls @ replicate j ChatCompletions"] by (auto simp: b_def)
    have s2: "(\<Sum>j = 0..<2. length (b j)) = 2" and s3: "(\<Sum>j = 0..<3. length (b j)) = 3"
      using bj by (simp_all add: numeral_2_eq_2 numeral_3_eq_3)
    have "generateMultiple ?gen ?count calls
        = (Inr (take ?count (concat (map b [0..<3]))), calls @ replicate 3 ChatCompletions)"
      using run [of 3 b] bj c s2 s3 by simp
    moreover have "length (take ?count (concat (map b [0..<3]))) = 3"
    proof -
      have u: "[0..<3] = [0, 1, 2::nat]" by code_simp
      show ?thesis using c bj [of 0] bj [of 1] bj [of 2] by (simp add: u)
    qed
    ultimately show ?thesis by (simp add: generateImages_chat)
  qed
  have bound: "\<exists>k. 1 \<le> k \<and> k \<le> ?count
      \<and> snd (generateImages ''chat'' up ps calls) = calls @ replicate k ChatCompletions"
  proof -
    from gm_from_calls [of ?gen ChatCompletions ?count 0 "[]" calls]
    obtain k where k: "k \<le> ?count"
      "snd (generateMultiple ?gen ?count calls) = calls @ replicate k ChatCompletions"
      by (auto simp: chat_logs generateMultiple_def)
    have "k \<noteq> 0"
    proof
      assume "k = 0"
      with k have same: "snd (generateMultiple_from ?gen ?count 0 [] calls) = calls"
        by (simp add: generateMultiple_def)
      have pos: "0 < ?count" using request_count_bounds [of "p_n ps"] by simp
      obtain r c where g: "?gen calls = (r, c)" by (cases "?gen calls")
      with chat_logs [of up ps calls] have c: "c = calls @ [ChatCompletions]" by simp
      from gm_from_calls [of ?gen ChatCompletions ?count 1 _ c]
      have later: "\<exists>k. snd (generateMultiple_from ?gen ?count 1 out c) = c @ replicate k ChatCompletions" for out
        by (auto simp: chat_logs)
      show False
      proof (cases r)
        case (Inl e)
        with pos g c same show False by (simp add: gm_throw)
      next
        case (Inr batch)
        show False
        proof (cases "?count \<le> length ([] @ batch)")
          case True
          with pos g c Inr same show False by (simp add: gm_break)
        next
          case False
          with pos g Inr have "generateMultiple_from ?gen ?count 0 [] calls
              = generateMultiple_from ?gen ?count (0 + 1) ([] @ batch) c"
            by (intro gm_continue) auto
          with same later [of batch] c show False by auto
        qed
      qed
    qed
    with k show ?thesis by (auto simp: generateImages_chat intro!: exI [of _ k])
  qed
  have exact: "length imgs = ?count"
    if "generateImages ''chat'' up ps calls = (Inr imgs, calls')" for imgs calls'
    using gm_from_length [of ?gen 0 "[]" ?count calls imgs calls'] that chat_nonempty
    by (simp add: generateImages_chat generateMultiple_def)
  from scenario bound exact run show ?thesis
    by (simp add: generateImages_chat)
qed

lemma chat_only_call:
  "generateImagesViaChatCompletions chat_only ps lg
   = (Inr [\<lparr>base64 = ''AAAA'', mimeType = ''image/png''\<rparr>], lg @ [ChatCompletions])"
  by (simp add: generateImagesViaChatCompletions_def chat_only_def one_image_json_def res_ok_def
        parseOpenAICompatibleResponse_def parseGeminiResponse_def image_of_part_def
        inline_image_def or_default_def)

theorem chat_mode_repeated_calls_witness:
  "\<exists>imgs. generateImages ''chat'' chat_only request3 []
      = (Inr imgs, [ChatCompletions, ChatCompletions, ChatCompletions]) \<and> length imgs = 3"
  using chat_mode_repeated_calls [of request3 chat_only "[]", THEN conjunct1]
  by (simp add: chat_only_call request3_def numeral_3_eq_3)

section \<open>Properties of the fallback chain\<close>

lemma gm_calls_pos:
  assumes logs: "\<And>lg. snd (gen lg) = lg @ [s]" and pos: "0 < count"
  shows "\<exists>k. 1 \<le> k \<and> k \<le> count \<and> snd (generateMultiple gen count calls) = calls @ replicate k s"
proof -
  obtain r c where g: "gen calls = (r, c)" by (cases "gen calls")
  with logs [of calls] have c: "c = calls @ [s]" by simp
  show ?thesis
  proof (cases r)
    case (Inl e)
    with pos g c have "snd (generateMultiple gen count calls) = calls @ replicate 1 s"
      by (simp add: generateMultiple_def gm_throw)
    with pos show ?thesis by (intro exI [of _ 1]) simp
  next
    case (Inr batch)
    show ?thesis
    proof (cases "count \<le> length ([] @ batch)")
      case True
      with pos g c Inr have "snd (generateMultiple gen count calls) = calls @ replicate 1 s"
        by (simp add: generateMultiple_def gm_break)
      with pos show ?thesis by (intro exI [of _ 1]) simp
    next
      case False
      with pos g Inr have eq: "generateMultiple gen count calls
          = generateMultiple_from gen count (0 + 1) ([] @ batch) c"
        unfolding generateMultiple_def by (intro gm_continue) auto
      from gm_from_calls [of gen s count "0 + 1" "[] @ batch" c] logs
      obtain k where k: "k \<le> count - (0 + 1)"
        "snd (generateMultiple_from gen count (0 + 1) ([] @ batch) c) = c @ replicate k s"
        by blast
      with eq c have "snd (generateMultiple gen count calls) = calls @ replicate (Suc k) s"
        by (simp add: replicate_app_Cons_same)
      moreover from k pos have "1 \<le> Suc k \<and> Suc k \<le> count" by simp
      ultimately show ?thesis by blast
    qed
  qed
qed

lemma gm_length:
  assumes "\<And>lg batch lg'. gen lg = (Inr batch, lg') \<Longrightarrow> batch \<noteq> []"
    and "generateMultiple gen count calls = (Inr res, calls')"
  shows "length res = count"
  using gm_from_length [of gen 0 "[]" count calls res calls'] assms
  by (simp add: generateMultiple_def)

lemma fallback_eligible_iff:
  "fallback_eligible e \<longleftrightarrow> (\<exists>status body. e = HttpError status body \<and> (status = 404 \<or> status = 400))"
  by (cases e) (auto simp: fallback_eligible_def)

lemma generateImages_auto:
  "generateImages ''auto'' up ps calls = generateWithFallback up ps (request_count (p_n ps)) calls"
  by (simp add: generateImages_def)

lemma auto_first_wins:
  "generateImagesViaImagesApi up ps calls = (Inr imgs, c1)
   \<Longrightarrow> generateImages ''auto'' up ps calls = (Inr imgs, calls @ [ImagesApi]) \<and> imgs \<noteq> []"
  using images_logs [of up ps calls] images_nonempty [of up ps calls imgs c1]
  by (simp add: generateImages_auto generateWithFallback_def)

lemma auto_propagates:
  "generateImagesViaImagesApi up ps calls = (Inl e, c1) \<Longrightarrow> \<not> fallback_eligible e
   \<Longrightarrow> generateImages ''auto'' up ps calls = (Inl e, calls @ [ImagesApi])"
  using images_logs [of up ps calls]
  by (simp add: generateImages_auto generateWithFallback_def)

lemma auto_falls_back:
  "generateImagesViaImagesApi up ps calls = (Inl e, c1) \<Longrightarrow> fallback_eligible e
   \<Longrightarrow> generateImages ''auto'' up ps calls =
      (case generateMultiple (generateImagesViaGeminiNative up ps) (request_count (p_n ps))
              (calls @ [ImagesApi]) of
         (Inr imgs, c2) \<Rightarrow> (Inr imgs, c2)
       | (Inl e2, c2) \<Rightarrow>
           generateMultiple (generateImagesViaChatCompletions up ps) (request_count (p_n ps)) c2)"
  using images_logs [of up ps calls]
  by (simp add: generateImages_auto generateWithFallback_def)

lemma count_pos: "0 < request_count n"
  using request_count_bounds [of n] by simp

text \<open>
  Claim C1. In auto mode: (1) when images-generation returns images, they are the result
  and no other strategy is called; (2) a failure of images-generation that is not an
  \<^verbatim>\<open>HttpError\<close> with status 404 or 400 is the result, and no other strategy is called;
  (3) after an \<^verbatim>\<open>HttpError\<close> with status 404 or 400, the result is that of the repeated
  native-generation calls when they succeed (chat-completions is not called), and that
  of the repeated chat-completions calls when native-generation fails in any way;
  (4) native-generation is called if and only if images-generation failed with such an
  \<^verbatim>\<open>HttpError\<close>; (5) with a count of 1, images-generation failing with 404 and
  native-generation returning one image, the result is that image after exactly the two
  calls.
\<close>

theorem auto_mode_fallback:
  "(\<forall>imgs c1. generateImagesViaImagesApi up ps calls = (Inr imgs, c1)
       \<longrightarrow> generateImages ''auto'' up ps calls = (Inr imgs, calls @ [ImagesApi]) \<and> imgs \<noteq> [])
   \<and> (\<forall>e c1. generateImagesViaImagesApi up ps calls = (Inl e, c1)
          \<and> \<not> (\<exists>status body. e = HttpError status body \<and> (status = 404 \<or> status = 400))
       \<longrightarrow> generateImages ''auto'' up ps calls = (Inl e, calls @ [ImagesApi]))
   \<and> (\<forall>status body c1.
         generateImagesViaImagesApi up ps calls = (Inl (HttpError status body), c1)
          \<and> (status = 404 \<or> status = 400)
       \<longrightarrow> (\<forall>imgs c2.
              generateMultiple (generateImagesViaGeminiNative up ps) (request_count (p_n ps))
                 (calls @ [ImagesApi]) = (Inr imgs, c2)
              \<longrightarrow> generateImages ''auto'' up ps calls = (Inr imgs, c2) \<and> imgs \<noteq> []
                  \<and> (\<exists>k. 1 \<le> k \<and> c2 = calls @ [ImagesApi] @ replicate k GeminiNative))
          \<and> (\<forall>e2 c2.
              generateMultiple (generateImagesViaGeminiNative up ps) (request_count (p_n ps))
                 (calls @ [ImagesApi]) = (Inl e2, c2)
              \<longrightarrow> generateImages ''auto'' up ps calls
                   = generateMultiple (generateImagesViaChatCompletions up ps)
                       (request_count (p_n ps)) c2))
   \<and> (GeminiNative \<in> set (drop (length calls) (snd (generateImages ''auto'' up ps calls)))
        \<longleftrightarrow> (\<exists>status body. fst (generateImagesViaImagesApi up ps calls) = Inl (HttpError status body)
                \<and> (status = 404 \<or> status = 400)))
   \<and> (\<forall>body c1 img c2.
         p_n ps = NumArg 1
          \<and> generateImagesViaImagesApi up ps calls = (Inl (HttpError 404 body), c1)
          \<and> generateImagesViaGeminiNative up ps (calls @ [ImagesApi]) = (Inr [img], c2)
       \<longrightarrow> generateImages ''auto'' up ps calls = (Inr [img], calls @ [ImagesApi, GeminiNative]))"
proof -
  let ?count = "request_count (p_n ps)"
  let ?gem = "generateMultiple (generateImagesViaGeminiNative up ps) ?count (calls @ [ImagesApi])"
  let ?auto = "generateImages ''auto'' up ps calls"
  have gem_calls: "\<exists>k. 1 \<le> k \<and> k \<le> ?count \<and> snd ?gem = (calls @ [ImagesApi]) @ replicate k GeminiNative"
    by (rule gm_calls_pos) (simp_all add: gemini_logs count_pos)
  have A: "?auto = (Inr imgs, calls @ [ImagesApi]) \<and> imgs \<noteq> []"
    if "generateImagesViaImagesApi up ps calls = (Inr imgs, c1)" for imgs c1
    using that by (rule auto_first_wins)
  have B: "?auto = (Inl e, calls @ [ImagesApi])"
    if "generateImagesViaImagesApi up ps calls = (Inl e, c1)"
       "\<not> (\<exists>status body. e = HttpError status body \<and> (status = 404 \<or> status = 400))" for e c1
    using that by (simp add: auto_propagates fallback_eligible_iff)
  have C1: "?auto = (Inr imgs, c2) \<and> imgs \<noteq> [] \<and> (\<exists>k. 1 \<le> k \<and> c2 = calls @ [ImagesApi] @ replicate k GeminiNative)"
    if f: "generateImagesViaImagesApi up ps calls = (Inl (HttpError status body), c1)"
       "status = 404 \<or> status = 400" and g: "?gem = (Inr imgs, c2)" for status body c1 imgs c2
  proof -
    from f have "fallback_eligible (HttpError status body)" by (auto simp: fallback_eligible_iff)
    with f(1) g have "?auto = (Inr imgs, c2)" by (simp add: auto_falls_back)
    moreover from g count_pos [of "p_n ps"] have "imgs \<noteq> []"
      using gm_length [of "generateImagesViaGeminiNative up ps" ?count "calls @ [ImagesApi]" imgs c2]
        gemini_nonempty by fastforce
    moreover from gem_calls g have "\<exists>k. 1 \<le> k \<and> c2 = calls @ [ImagesApi] @ replicate k GeminiNative"
      by auto
    ultimately show ?thesis by blast
  qed
  have C2: "?auto = generateMultiple (generateImagesViaChatCompletions up ps) ?count c2"
    if f: "generateImagesViaImagesApi up ps calls = (Inl (HttpError status body), c1)"
       "status = 404 \<or> status = 400" and g: "?gem = (Inl e2, c2)" for status body c1 e2 c2
  proof -
    from f have "fallback_eligible (HttpError status body)" by (auto simp: fallback_eligible_iff)
    with f(1) g show ?thesis by (simp add: auto_falls_back)
  qed
  have D: "GeminiNative \<in> set (drop (length calls) (snd ?auto))
        \<longleftrightarrow> (\<exists>status body. fst (generateImagesViaImagesApi up ps calls) = Inl (HttpError status body)
                \<and> (status = 404 \<or> status = 400))"
  proof (cases "generateImagesViaImagesApi up ps calls")
    case (Pair r c1)
    show ?thesis
    proof (cases r)
      case (Inr imgs)
      with Pair A [of imgs c1] show ?thesis by simp
    next
      case (Inl e)
      show ?thesis
      proof (cases "fallback_eligible e")
        case False
        with Pair Inl auto_propagates [of up ps calls e c1] show ?thesis
          by (simp add: fallback_eligible_iff)
      next
        case True
        from gem_calls obtain k where k: "1 \<le> k" "snd ?gem = (calls @ [ImagesApi]) @ replicate k GeminiNative"
          by blast
        have "\<exists>rest. snd ?auto = (calls @ [ImagesApi]) @ replicate k GeminiNative @ rest"
        proof (cases ?gem)
          case (Pair r2 c2)
          show ?thesis
          proof (cases r2)
            case (Inr imgs)
            with Pair Inl True \<open>generateImagesViaImagesApi up ps calls = (r, c1)\<close> k
            show ?thesis by (simp add: auto_falls_back)
          next
            case (Inl e2)
            from gm_calls_pos [of "generateImagesViaChatCompletions up ps" ChatCompletions ?count c2]
            obtain j where "snd (generateMultiple (generateImagesViaChatCompletions up ps) ?count c2)
                = c2 @ replicate j ChatCompletions"
              by (auto simp: chat_logs count_pos)
            with Pair Inl True \<open>r = Inl e\<close> \<open>generateImagesViaImagesApi up ps calls = (r, c1)\<close> k
            show ?thesis by (simp add: auto_falls_back)
          qed
        qed
        then obtain rest where "snd ?auto = calls @ [ImagesApi] @ replicate k GeminiNative @ rest"
          by auto
        moreover from k have "GeminiNative \<in> set (replicate k GeminiNative)" by simp
        ultimately have "GeminiNative \<in> set (drop (length calls) (snd ?auto))" by simp
        with True Pair Inl show ?thesis by (simp add: fallback_eligible_iff)
      qed
    qed
  qed
  have E: "?auto = (Inr [img], calls @ [ImagesApi, GeminiNative])"
    if n: "p_n ps = NumArg 1"
      and f: "generateImagesViaImagesApi up ps calls = (Inl (HttpError 404 body), c1)"
      and g: "generateImagesViaGeminiNative up ps (calls @ [ImagesApi]) = (Inr [img], c2)"
    for body c1 img c2
  proof -
    from n have c: "?count = 1" by (simp add: request_count_def parseIntOr_def clampInt_def)
    from g gemini_logs [of up ps "calls @ [ImagesApi]"] have c2: "c2 = calls @ [ImagesApi, GeminiNative]"
      by simp
    from g c have "?gem = (Inr [img], c2)"
      by (simp add: generateMultiple_def gm_break)
    moreover have "fallback_eligible (HttpError 404 body)" by (simp add: fallback_eligible_def)
    ultimately show ?thesis using f c2 by (simp add: auto_falls_back)
  qed
  show ?thesis
    apply (intro conjI allI impI)
    subgoal for imgs c1 using A [of imgs c1] by simp
    subgoal for imgs c1 using A [of imgs c1] by simp
    subgoal for e c1 using B [of e c1] by blast
    subgoal for status body c1 imgs c2 using C1 [of status body c1 imgs c2] by blast
    subgoal for status body c1 imgs c2 using C1 [of status body c1 imgs c2] by blast
    subgoal for status body c1 imgs c2 using C1 [of status body c1 imgs c2] by blast
    subgoal for status body c1 e2 c2 using C2 [of status body c1 e2 c2] by blast
    subgoal using D by blast
    subgoal for body c1 img c2 using E [of body c1 img c2] by blast
    done
qed

lemma native_only_images:
  "generateImagesViaImagesApi native_only ps lg = (Inl (HttpError 404 ''not found''), lg @ [ImagesApi])"
  by (simp add: generateImagesViaImagesApi_def native_only_def res_ok_def)

lemma native_only_gemini:
  "generateImagesViaGeminiNative native_only ps lg = (Inr [image_a], lg @ [GeminiNative])"
  by (simp add: generateImagesViaGeminiNative_def native_only_def res_ok_def part_a_def image_a_def
        parseGeminiResponse_def image_of_part_def inline_image_def or_default_def)

theorem auto_mode_fallback_witness:
  "generateImages ''auto'' native_only request1 [] = (Inr [image_a], [ImagesApi, GeminiNative])"
proof -
  have "p_n request1 = NumArg 1" by (simp add: request1_def)
  moreover have "generateImagesViaImagesApi native_only request1 []
      = (Inl (HttpError 404 ''not found''), [] @ [ImagesApi])"
    by (rule native_only_images)
  moreover have "generateImagesViaGeminiNative native_only request1 ([] @ [ImagesApi])
      = (Inr [image_a], ([] @ [ImagesApi]) @ [GeminiNative])"
    by (rule native_only_gemini)
  ultimately show ?thesis
    using auto_mode_fallback [of native_only request1 "[]", THEN conjunct2, THEN conjunct2,
        THEN conjunct2, THEN conjunct2, rule_format,
        of "''not found''" "[] @ [ImagesApi]" image_a "([] @ [ImagesApi]) @ [GeminiNative]"]
    by simp
qed

section \<open>Properties of the count policy\<close>

lemma collect_err:
  assumes "\<And>x e. f x = Inl e \<Longrightarrow> Q e"
  shows "collect f xs = Inl e \<Longrightarrow> Q e"
  using assms
  by (induction xs) (auto split: sum.splits)

lemma fetch_err: "fetchUrlAsBase64 up u = Inl e \<Longrightarrow> fetch_error e"
  by (auto simp: fetchUrlAsBase64_def fetch_error_def split: url_response.splits if_splits)

lemma images_of_item_err: "images_of_item up item = Inl e \<Longrightarrow> fetch_error e"
  by (auto simp: images_of_item_def split: option.splits sum.splits dest: fetch_err)

lemma image_of_url_err: "image_of_url up u = Inl e \<Longrightarrow> fetch_error e"
  by (auto simp: image_of_url_def split: option.splits sum.splits if_splits dest: fetch_err)

lemma images_of_choice_err: "images_of_choice up choice = Inl e \<Longrightarrow> fetch_error e"
proof -
  have a: "images_of_chat_item up item = Inl e \<Longrightarrow> fetch_error e" for item e
    by (auto simp: images_of_chat_item_def split: option.splits if_splits dest: image_of_url_err)
  have b: "images_of_message_image up img = Inl e \<Longrightarrow> fetch_error e" for img e
    by (auto simp: images_of_message_image_def split: option.splits if_splits dest: image_of_url_err)
  assume "images_of_choice up choice = Inl e"
  then show ?thesis
    using collect_err [of "images_of_chat_item up" fetch_error, OF a]
      collect_err [of "images_of_message_image up" fetch_error, OF b]
    by (auto simp: images_of_choice_def split: option.splits sum.splits)
qed

lemma no_images_not_fetch_error:
  "\<not> fetch_error (PlainError NoImagesImagesApi)" "\<not> fetch_error (PlainError NoImagesGemini)"
  "\<not> fetch_error (PlainError NoImagesChat)"
  by (simp_all add: fetch_error_def)

lemma collect_items_err: "collect (images_of_item up) items = Inl e \<Longrightarrow> fetch_error e"
  by (rule collect_err [of "images_of_item up" fetch_error]) (auto dest: images_of_item_err)

lemma parse_chat_err: "parseOpenAICompatibleResponse up json = Inl e \<Longrightarrow> fetch_error e"
proof -
  have "collect (images_of_choice up) cs = Inl e \<Longrightarrow> fetch_error e" for cs
    by (rule collect_err [of "images_of_choice up" fetch_error]) (auto dest: images_of_choice_err)
  moreover assume "parseOpenAICompatibleResponse up json = Inl e"
  ultimately show ?thesis
    by (auto simp: parseOpenAICompatibleResponse_def split: sum.splits)
qed

lemma images_zero_iff:
  "fst (generateImagesViaImagesApi up ps calls) = Inl (PlainError NoImagesImagesApi)
   \<longleftrightarrow> (\<exists>status body items. post_images up calls ps = Response status body (Some items)
          \<and> res_ok status \<and> collect (images_of_item up) items = Inr [])"
  using collect_items_err [of up _ "PlainError NoImagesImagesApi"] no_images_not_fetch_error
  by (auto simp: generateImagesViaImagesApi_def Let_def
        split: response.splits option.splits sum.splits if_splits)

lemma gemini_zero_iff:
  "fst (generateImagesViaGeminiNative up ps calls) = Inl (PlainError NoImagesGemini)
   \<longleftrightarrow> (\<exists>status body candidates. post_gemini up calls ps = Response status body (Some candidates)
          \<and> res_ok status \<and> parseGeminiResponse candidates = [])"
  by (auto simp: generateImagesViaGeminiNative_def Let_def
        split: response.splits option.splits sum.splits if_splits)

lemma chat_zero_iff:
  "fst (generateImagesViaChatCompletions up ps calls) = Inl (PlainError NoImagesChat)
   \<longleftrightarrow> (\<exists>status body json. post_chat up calls ps = Response status body (Some json)
          \<and> res_ok status \<and> parseOpenAICompatibleResponse up json = Inr [])"
  using parse_chat_err [of up _ "PlainError NoImagesChat"] no_images_not_fetch_error
  by (auto simp: generateImagesViaChatCompletions_def Let_def
        split: response.splits option.splits sum.splits if_splits)

lemma gm_first_call_throws:
  "0 < count \<Longrightarrow> gen calls = (Inl e, calls') \<Longrightarrow> generateMultiple gen count calls = (Inl e, calls')"
  by (simp add: generateMultiple_def gm_throw)

text \<open>
  Claim C2, as amended. (1) In every mode a result of \<^verbatim>\<open>generateImages\<close> is not empty.
  (2) In the modes that repeat calls (every mode but \<^verbatim>\<open>openai\<close>, \<^verbatim>\<open>images\<close> and
  \<^verbatim>\<open>auto\<close>) and (3) in auto mode once images-generation has failed, a result has
  exactly count images, at most 4. (4)-(6) A strategy whose response is ok and yields no
  image fails with a plain error of its own, not an \<^verbatim>\<open>HttpError\<close>, and in a mode where
  that strategy is called first \<^verbatim>\<open>generateImages\<close> fails with that error after the one
  call. (7)-(9) A strategy fails with that error in no other case.
\<close>

theorem adapter_result_shape:
  "(\<forall>imgs calls'. generateImages mode up ps calls = (Inr imgs, calls') \<longrightarrow> imgs \<noteq> [])
   \<and> (\<forall>imgs calls'. mode \<notin> {''openai'', ''images'', ''auto''}
          \<and> generateImages mode up ps calls = (Inr imgs, calls')
        \<longrightarrow> length imgs = request_count (p_n ps) \<and> length imgs \<le> 4)
   \<and> (\<forall>imgs calls' e c1. mode = ''auto''
          \<and> generateImagesViaImagesApi up ps calls = (Inl e, c1)
          \<and> generateImages mode up ps calls = (Inr imgs, calls')
        \<longrightarrow> length imgs = request_count (p_n ps) \<and> length imgs \<le> 4)
   \<and> (\<forall>status body items. post_images up calls ps = Response status body (Some items)
          \<and> res_ok status \<and> collect (images_of_item up) items = Inr []
        \<longrightarrow> generateImagesViaImagesApi up ps calls
              = (Inl (PlainError NoImagesImagesApi), calls @ [ImagesApi])
            \<and> (mode \<in> {''openai'', ''images'', ''auto''}
                \<longrightarrow> generateImages mode up ps calls
                    = (Inl (PlainError NoImagesImagesApi), calls @ [ImagesApi])))
   \<and> (\<forall>status body candidates. post_gemini up calls ps = Response status body (Some candidates)
          \<and> res_ok status \<and> parseGeminiResponse candidates = []
        \<longrightarrow> generateImagesViaGeminiNative up ps calls
              = (Inl (PlainError NoImagesGemini), calls @ [GeminiNative])
            \<and> (mode = ''gemini''
                \<longrightarrow> generateImages mode up ps calls
                    = (Inl (PlainError NoImagesGemini), calls @ [GeminiNative])))
   \<and> (\<forall>status body json. post_chat up calls ps = Response status body (Some json)
          \<and> res_ok status \<and> parseOpenAICompatibleResponse up json = Inr []
        \<longrightarrow> generateImagesViaChatCompletions up ps calls
              = (Inl (PlainError NoImagesChat), calls @ [ChatCompletions])
            \<and> (mode \<notin> {''gemini'', ''openai'', ''images'', ''auto''}
                \<longrightarrow> generateImages mode up ps calls
                    = (Inl (PlainError NoImagesChat), calls @ [ChatCompletions])))
   \<and> (fst (generateImagesViaImagesApi up ps calls) = Inl (PlainError NoImagesImagesApi)
        \<longleftrightarrow> (\<exists>status body items. post_images up calls ps = Response status body (Some items)
               \<and> res_ok status \<and> collect (images_of_item up) items = Inr []))
   \<and> (fst (generateImagesViaGeminiNative up ps calls) = Inl (PlainError NoImagesGemini)
        \<longleftrightarrow> (\<exists>status body candidates.
               post_gemini up calls ps = Response status body (Some candidates)
               \<and> res_ok status \<and> parseGeminiResponse candidates = []))
   \<and> (fst (generateImagesViaChatCompletions up ps calls) = Inl (PlainError NoImagesChat)
        \<longleftrightarrow> (\<exists>status body json. post_chat up calls ps = Response status body (Some json)
               \<and> res_ok status \<and> parseOpenAICompatibleResponse up json = Inr []))"
proof -
  let ?count = "request_count (p_n ps)"
  let ?gem = "generateImagesViaGeminiNative up ps"
  let ?chat = "generateImagesViaChatCompletions up ps"
  have gem_len: "length imgs = ?count" if "generateMultiple ?gem ?count c = (Inr imgs, c')" for imgs c c'
    using gm_length [of ?gem ?count c imgs c'] that gemini_nonempty by blast
  have chat_len: "length imgs = ?count" if "generateMultiple ?chat ?count c = (Inr imgs, c')" for imgs c c'
    using gm_length [of ?chat ?count c imgs c'] that chat_nonempty by blast
  have le4: "?count \<le> 4" and pos: "0 < ?count"
    using request_count_bounds [of "p_n ps"] by simp_all
  have fb_len: "length imgs = ?count"
    if "generateImagesViaImagesApi up ps calls = (Inl e, c1)"
       "generateWithFallback up ps ?count calls = (Inr imgs, calls')" for imgs calls' e c1
    using that gem_len chat_len
    by (auto simp: generateWithFallback_def split: if_splits prod.splits sum.splits)
  have fb_ne: "imgs \<noteq> []"
    if "generateWithFallback up ps ?count calls = (Inr imgs, calls')" for imgs calls'
  proof (cases "generateImagesViaImagesApi up ps calls")
    case (Pair r c1)
    show ?thesis
    proof (cases r)
      case (Inr first)
      with Pair that images_nonempty [of up ps calls first c1] show ?thesis
        by (simp add: generateWithFallback_def)
    next
      case (Inl e)
      with Pair that fb_len [of e c1 imgs calls'] pos show ?thesis by auto
    qed
  qed
  have nonempty: "imgs \<noteq> []" if "generateImages mode up ps calls = (Inr imgs, calls')" for imgs calls'
    using that gem_len [of calls imgs calls'] chat_len [of calls imgs calls'] pos
      images_nonempty [of up ps calls imgs calls'] fb_ne [of imgs calls']
    by (auto simp: generateImages_def Let_def split: if_splits)
  have pinned: "length imgs = ?count \<and> length imgs \<le> 4"
    if "mode \<notin> {''openai'', ''images'', ''auto''}" "generateImages mode up ps calls = (Inr imgs, calls')"
    for imgs calls'
    using that gem_len [of calls imgs calls'] chat_len [of calls imgs calls'] le4
    by (auto simp: generateImages_def Let_def split: if_splits)
  have auto_fb: "length imgs = ?count \<and> length imgs \<le> 4"
    if "mode = ''auto''" "generateImagesViaImagesApi up ps calls = (Inl e, c1)"
       "generateImages mode up ps calls = (Inr imgs, calls')" for imgs calls' e c1
    using that fb_len [of e c1 imgs calls'] le4 by (simp add: generateImages_def)
  have zi: "generateImagesViaImagesApi up ps calls = (Inl (PlainError NoImagesImagesApi), calls @ [ImagesApi])"
    if "post_images up calls ps = Response status body (Some items)" "res_ok status"
       "collect (images_of_item up) items = Inr []" for status body items
    using that by (simp add: generateImagesViaImagesApi_def)
  have zi_mode: "generateImages mode up ps calls = (Inl (PlainError NoImagesImagesApi), calls @ [ImagesApi])"
    if "generateImagesViaImagesApi up ps calls = (Inl (PlainError NoImagesImagesApi), calls @ [ImagesApi])"
       "mode \<in> {''openai'', ''images'', ''auto''}"
    using that by (auto simp: generateImages_def generateWithFallback_def fallback_eligible_def)
  have zg: "?gem calls = (Inl (PlainError NoImagesGemini), calls @ [GeminiNative])"
    if "post_gemini up calls ps = Response status body (Some candidates)" "res_ok status"
       "parseGeminiResponse candidates = []" for status body candidates
    using that by (simp add: generateImagesViaGeminiNative_def)
  have zg_mode: "generateImages mode up ps calls = (Inl (PlainError NoImagesGemini), calls @ [GeminiNative])"
    if "?gem calls = (Inl (PlainError NoImagesGemini), calls @ [GeminiNative])" "mode = ''gemini''"
    using that pos by (simp add: generateImages_def gm_first_call_throws)
  have zc: "?chat calls = (Inl (PlainError NoImagesChat), calls @ [ChatCompletions])"
    if "post_chat up calls ps = Response status body (Some json)" "res_ok status"
       "parseOpenAICompatibleResponse up json = Inr []" for status body json
    using that by (simp add: generateImagesViaChatCompletions_def)
  have zc_mode: "generateImages mode up ps calls = (Inl (PlainError NoImagesChat), calls @ [ChatCompletions])"
    if "?chat calls = (Inl (PlainError NoImagesChat), calls @ [ChatCompletions])"
       "mode \<notin> {''gemini'', ''openai'', ''images'', ''auto''}"
    using that pos by (simp add: generateImages_def gm_first_call_throws)
  show ?thesis
    apply (intro conjI allI impI)
    subgoal for imgs calls' using nonempty [of imgs calls'] by simp
    subgoal for imgs calls' using pinned [of imgs calls'] by blast
    subgoal for imgs calls' using pinned [of imgs calls'] by blast
    subgoal for imgs calls' e c1 using auto_fb [of e c1 imgs calls'] by blast
    subgoal for imgs calls' e c1 using auto_fb [of e c1 imgs calls'] by blast
    subgoal for status body items using zi [of status body items] by blast
    subgoal for status body items using zi [of status body items] zi_mode by blast
    subgoal for status body candidates using zg [of status body candidates] by blast
    subgoal for status body candidates using zg [of status body candidates] zg_mode by blast
    subgoal for status body json using zc [of status body json] by blast
    subgoal for status body json using zc [of status body json] zc_mode by blast
    subgoal by (rule images_zero_iff)
    subgoal by (rule gemini_zero_iff)
    subgoal by (rule chat_zero_iff)
    done
qed

lemma two_items_images:
  "generateImagesViaImagesApi two_items ps lg = (Inr [image_a, image_b], lg @ [ImagesApi])"
  by (simp add: generateImagesViaImagesApi_def two_items_def res_ok_def images_of_item_def
        nonblank_def js_trim_def js_ws_def stripDataUrlPrefix_def parseDataUrl_def
        image_a_def image_b_def)

text \<open>
  Claim C2 as stated fails twice. In images mode with a count of 1, a response with two
  items gives two images. In auto mode, after a 404 of images-generation, an ok response
  of native-generation with no image does not fail the adapter: chat-completions is
  called and its image is the result.
\<close>

theorem adapter_result_shape_counterexample:
  "generateImages ''images'' two_items request1 [] = (Inr [image_a, image_b], [ImagesApi])
   \<and> request_count (p_n request1) = 1
   \<and> post_gemini empty_native [ImagesApi] request1 = Response 200 [] (Some [])
   \<and> res_ok 200
   \<and> parseGeminiResponse [] = []
   \<and> generateImages ''auto'' empty_native request1 []
       = (Inr [image_a], [ImagesApi, GeminiNative, ChatCompletions])"
proof -
  have c: "request_count (p_n request1) = 1"
    by (simp add: request1_def request_count_def parseIntOr_def clampInt_def)
  have i: "generateImagesViaImagesApi empty_native request1 [] = (Inl (HttpError 404 ''not found''), [ImagesApi])"
    by (simp add: generateImagesViaImagesApi_def empty_native_def res_ok_def)
  have g: "generateImagesViaGeminiNative empty_native request1 [ImagesApi]
      = (Inl (PlainError NoImagesGemini), [ImagesApi, GeminiNative])"
    by (simp add: generateImagesViaGeminiNative_def empty_native_def res_ok_def parseGeminiResponse_def)
  have h: "generateImagesViaChatCompletions empty_native request1 [ImagesApi, GeminiNative]
      = (Inr [image_a], [ImagesApi, GeminiNative, ChatCompletions])"
    by (simp add: generateImagesViaChatCompletions_def empty_native_def res_ok_def part_a_def
          image_a_def parseOpenAICompatibleResponse_def parseGeminiResponse_def image_of_part_def
          inline_image_def or_default_def)
  have "generateImages ''auto'' empty_native request1 []
       = (Inr [image_a], [ImagesApi, GeminiNative, ChatCompletions])"
    using c i g h
    by (simp add: generateImages_def generateWithFallback_def fallback_eligible_def
          generateMultiple_def gm_throw gm_break)
  moreover have "generateImages ''images'' two_items request1 [] = (Inr [image_a, image_b], [ImagesApi])"
    using two_items_images [of request1 "[]"] by (simp add: generateImages_def)
  ultimately show ?thesis
    using c by (simp add: empty_native_def res_ok_def parseGeminiResponse_def)
qed

theorem adapter_result_shape_witness:
  "generateImages ''gemini'' native_only request1 [] = (Inr [image_a], [GeminiNative])
   \<and> [image_a] \<noteq> []
   \<and> length [image_a] = request_count (p_n request1)
   \<and> generateImages ''gemini'' empty_native request1 []
       = (Inl (PlainError NoImagesGemini), [] @ [GeminiNative])"
proof -
  have r: "generateImages ''gemini'' native_only request1 [] = (Inr [image_a], [GeminiNative])"
    using native_only_gemini [of request1 "[]"]
    by (simp add: generateImages_def generateMultiple_def gm_break request1_def request_count_def
          parseIntOr_def clampInt_def)
  have z: "post_gemini empty_native [] request1 = Response 200 [] (Some [])
      \<and> res_ok 200 \<and> parseGeminiResponse [] = []"
    by (simp add: empty_native_def res_ok_def parseGeminiResponse_def)
  from adapter_result_shape [of "''gemini''" native_only request1 "[]"] r
  have "[image_a] \<noteq> [] \<and> length [image_a] = request_count (p_n request1)"
    by simp
  moreover from adapter_result_shape [of "''gemini''" empty_native request1 "[]"] z
  have "generateImages ''gemini'' empty_native request1 []
       = (Inl (PlainError NoImagesGemini), [] @ [GeminiNative])"
    by blast
  ultimately show ?thesis using r by blast
qed

section \<open>Mime types of the images the adapter returns\<close>

text \<open>Every parser puts a default in the place of a mime type that is missing or empty.\<close>

lemma parseDataUrl_mime: "parseDataUrl s = Some p \<Longrightarrow> mimeType p \<noteq> []"
  by (auto simp: parseDataUrl_def Let_def split: if_splits)

lemma or_default_nonempty: "d \<noteq> [] \<Longrightarrow> or_default v d \<noteq> []"
  by (auto simp: or_default_def split: option.splits)

lemma fetch_mime: "fetchUrlAsBase64 up u = Inr i \<Longrightarrow> mimeType i \<noteq> []"
  by (auto simp: fetchUrlAsBase64_def or_default_def split: url_response.splits if_splits)

lemma inline_image_mime: "inline_image v = Some i \<Longrightarrow> mimeType i \<noteq> []"
  by (auto simp: inline_image_def or_default_def split: option.splits if_splits)

lemma collect_all:
  assumes "\<And>x r. f x = Inr r \<Longrightarrow> list_all P r"
  shows "collect f xs = Inr r \<Longrightarrow> list_all P r"
  using assms
  by (induction xs arbitrary: r) (auto split: sum.splits)

lemma image_of_url_mime: "image_of_url up u = Inr r \<Longrightarrow> list_all (\<lambda>i. mimeType i \<noteq> []) r"
  by (auto simp: image_of_url_def split: option.splits if_splits sum.splits
        dest: parseDataUrl_mime fetch_mime)

lemma images_of_item_mime: "images_of_item up item = Inr r \<Longrightarrow> list_all (\<lambda>i. mimeType i \<noteq> []) r"
  by (auto simp: images_of_item_def split: option.splits sum.splits
        dest: parseDataUrl_mime fetch_mime)

lemma parseGeminiResponse_mime: "list_all (\<lambda>i. mimeType i \<noteq> []) (parseGeminiResponse candidates)"
  by (auto simp: parseGeminiResponse_def image_of_part_def list_all_iff split: option.splits
        dest: inline_image_mime inline_image_mime [OF sym])

lemma images_of_choice_mime: "images_of_choice up choice = Inr r \<Longrightarrow> list_all (\<lambda>i. mimeType i \<noteq> []) r"
proof -
  have a: "images_of_chat_item up item = Inr r \<Longrightarrow> list_all (\<lambda>i. mimeType i \<noteq> []) r" for item r
    by (auto simp: images_of_chat_item_def split: option.splits if_splits
          dest: inline_image_mime image_of_url_mime)
  have b: "images_of_message_image up img = Inr r \<Longrightarrow> list_all (\<lambda>i. mimeType i \<noteq> []) r" for img r
    by (auto simp: images_of_message_image_def split: option.splits if_splits
          dest: image_of_url_mime)
  assume "images_of_choice up choice = Inr r"
  then show ?thesis
    using collect_all [of "images_of_chat_item up" "\<lambda>i. mimeType i \<noteq> []", OF a]
      collect_all [of "images_of_message_image up" "\<lambda>i. mimeType i \<noteq> []", OF b]
    by (auto simp: images_of_choice_def split: option.splits sum.splits)
qed

lemma images_strategy_mime:
  "generateImagesViaImagesApi up ps lg = (Inr r, lg') \<Longrightarrow> list_all (\<lambda>i. mimeType i \<noteq> []) r"
  using collect_all [of "images_of_item up" "\<lambda>i. mimeType i \<noteq> []", OF images_of_item_mime]
  by (auto simp: generateImagesViaImagesApi_def Let_def
        split: response.splits option.splits sum.splits if_splits)

lemma gemini_strategy_mime:
  "generateImagesViaGeminiNative up ps lg = (Inr r, lg') \<Longrightarrow> list_all (\<lambda>i. mimeType i \<noteq> []) r"
  using parseGeminiResponse_mime
  by (auto simp: generateImagesViaGeminiNative_def Let_def
        split: response.splits option.splits sum.splits if_splits)

lemma chat_strategy_mime:
  "generateImagesViaChatCompletions up ps lg = (Inr r, lg') \<Longrightarrow> list_all (\<lambda>i. mimeType i \<noteq> []) r"
  using collect_all [of "images_of_choice up" "\<lambda>i. mimeType i \<noteq> []", OF images_of_choice_mime]
    parseGeminiResponse_mime
  by (auto simp: generateImagesViaChatCompletions_def parseOpenAICompatibleResponse_def Let_def
        split: response.splits option.splits sum.splits if_splits)

lemma list_all_take: "list_all P xs \<Longrightarrow> list_all P (take n xs)"
  by (auto simp: list_all_iff dest: in_set_takeD)

lemma gm_from_all:
  assumes "\<And>lg b lg'. gen lg = (Inr b, lg') \<Longrightarrow> list_all P b"
  shows "list_all P out \<Longrightarrow> generateMultiple_from gen count i out calls = (Inr res, calls')
         \<Longrightarrow> list_all P res"
  using assms
proof (induction gen count i out calls rule: generateMultiple_from.induct)
  case (1 generator count i out calls)
  show ?case
  proof (cases "i < count")
    case False
    with "1.prems"(1,2) show ?thesis by (auto simp: gm_exit list_all_take)
  next
    case True
    obtain r c where g: "generator calls = (r, c)" by (cases "generator calls")
    show ?thesis
    proof (cases r)
      case (Inl e)
      with True g "1.prems"(2) show ?thesis by (simp add: gm_throw)
    next
      case (Inr batch)
      with g "1.prems"(3) have b: "list_all P batch" by blast
      with "1.prems"(1) have ob: "list_all P (out @ batch)" by simp
      show ?thesis
      proof (cases "count \<le> length (out @ batch)")
        case True
        with \<open>i < count\<close> g Inr "1.prems"(2) have "res = take count (out @ batch)"
          by (simp add: gm_break)
        with list_all_take [OF ob, of count] show ?thesis by simp
      next
        case False
        from False \<open>i < count\<close> g Inr "1.prems"(2)
        have "generateMultiple_from generator count (i + 1) (out @ batch) c = (Inr res, calls')"
          by (simp add: gm_continue)
        from "1.IH" [OF \<open>i < count\<close> g [symmetric] Inr False ob this "1.prems"(3)]
        show ?thesis by simp
      qed
    qed
  qed
qed

lemma gm_all:
  assumes "\<And>lg b lg'. gen lg = (Inr b, lg') \<Longrightarrow> list_all P b"
    and "generateMultiple gen count calls = (Inr res, calls')"
  shows "list_all P res"
  using gm_from_all [of gen P "[]" count 0 calls res calls'] assms
  by (simp add: generateMultiple_def)

theorem adapter_images_have_mime_type:
  "generateImages mode up ps calls = (Inr imgs, calls') \<Longrightarrow> list_all (\<lambda>i. mimeType i \<noteq> []) imgs"
proof -
  let ?P = "\<lambda>i. mimeType i \<noteq> []"
  have gem: "list_all ?P r"
    if "generateMultiple (generateImagesViaGeminiNative up ps) n c = (Inr r, c')" for n c r c'
    using gm_all [of "generateImagesViaGeminiNative up ps" ?P n c r c'] that gemini_strategy_mime
    by blast
  have chat: "list_all ?P r"
    if "generateMultiple (generateImagesViaChatCompletions up ps) n c = (Inr r, c')" for n c r c'
    using gm_all [of "generateImagesViaChatCompletions up ps" ?P n c r c'] that chat_strategy_mime
    by blast
  have fb: "list_all ?P r" if "generateWithFallback up ps n c = (Inr r, c')" for n c r c'
    using that gem chat images_strategy_mime
    by (auto simp: generateWithFallback_def split: prod.splits sum.splits if_splits)
  assume "generateImages mode up ps calls = (Inr imgs, calls')"
  then show ?thesis
    using gem chat fb images_strategy_mime
    by (auto simp: generateImages_def Let_def split: if_splits)
qed

theorem adapter_images_have_mime_type_witness:
  "list_all (\<lambda>i. mimeType i \<noteq> []) [image_a]"
  using adapter_images_have_mime_type [of "''auto''" native_only request1 "[]" "[image_a]"
      "[ImagesApi, GeminiNative]"]
    native_only_images [of request1 "[]"] native_only_gemini [of request1 "[ImagesApi]"]
  by (simp add: generateImages_def generateWithFallback_def fallback_eligible_def
        generateMultiple_def gm_break request1_def request_count_def parseIntOr_def clampInt_def)

section \<open>Properties of the session store\<close>









text \<open>
  The module without persistence in \<^verbatim>\<open>session.js\<close> has no such constant: there the history
  grows with every update.
\<close>

lemma updateSession_memory_grows:
  "length (messages (fst (updateSession_memory now key s uc imgs st))) > length (messages s)"
  by (simp add: updateSession_memory_def Let_def)

lemma extract_parts_length:
  "extract_parts cfg pf sid ps acc = (ps', acc') \<Longrightarrow> length ps' = length ps"
proof (induction ps arbitrary: acc ps' acc')
  case Nil
  then show ?case by simp
next
  case (Cons p ps)
  obtain p1 acc1 where a: "extract_part cfg pf sid p acc = (p1, acc1)"
    by (cases "extract_part cfg pf sid p acc")
  obtain ps1 acc2 where b: "extract_parts cfg pf sid ps acc1 = (ps1, acc2)"
    by (cases "extract_parts cfg pf sid ps acc1")
  from Cons.IH [OF b] Cons.prems a b show ?case by auto
qed










text \<open>
  Claim C4 (\<^verbatim>\<open>getOrCreateSession\<close> never returns a session older than the TTL, in memory or
  on disk). With a TTL of 1000 and the session \<^verbatim>\<open>s1\<close> in memory, last used at time 0,
  the call at time 5000 returns that session, under its own id, with its history; so does
  the module without persistence.
\<close>

theorem getOrCreateSession_stale_memory:
  "sessions stale_state ''s1'' = Some session1
   \<and> lastUsedAt session1 = 0
   \<and> sessionTtlMs cfg0 < 5000 - lastUsedAt session1
   \<and> fst (getOrCreateSession cfg0 pf0 5000 ''f00d'' (Some ''s1'') stale_state) = ''s1''
   \<and> fst (snd (getOrCreateSession cfg0 pf0 5000 ''f00d'' (Some ''s1'') stale_state))
       = session1\<lparr>lastUsedAt := 5000\<rparr>
   \<and> sess_id (fst (snd (getOrCreateSession cfg0 pf0 5000 ''f00d'' (Some ''s1'') stale_state))) = ''s1''
   \<and> fst (snd (getOrCreateSession_memory 5000 ''f00d'' (Some ''s1'') stale_state))
       = session1\<lparr>lastUsedAt := 5000\<rparr>"
  by (simp add: getOrCreateSession_def getOrCreateSession_memory_def Let_def stale_state_def
        session1_def cfg0_def truthy_def or_default_def)

text \<open>
  The branch of \<^verbatim>\<open>getOrCreateSession\<close> that loads a session from its file does compare its
  age with the TTL: an expired session is deleted and a new one is created under the fresh
  identifier, and one that is not expired is returned under its own key.
\<close>

theorem file_session_expiry:
  assumes "sid \<noteq> []" and "sessions st sid = None"
    and "loadSessionFromFile cfg pf sid (files st) = Some fileSession"
  shows "(sessionTtlMs cfg < now - lastUsedAt fileSession
          \<longrightarrow> getOrCreateSession cfg pf now fresh (Some sid) st
              = create_session cfg pf now fresh (st\<lparr>files := deleteSessionFile cfg sid (files st)\<rparr>)
            \<and> fst (getOrCreateSession cfg pf now fresh (Some sid) st) = fresh
            \<and> fst (snd (getOrCreateSession cfg pf now fresh (Some sid) st)) = new_session fresh now)
       \<and> (now - lastUsedAt fileSession \<le> sessionTtlMs cfg
          \<longrightarrow> fst (getOrCreateSession cfg pf now fresh (Some sid) st) = sid
            \<and> fst (snd (getOrCreateSession cfg pf now fresh (Some sid) st))
                = fileSession\<lparr>lastUsedAt := now\<rparr>)"
  using assms
  by (simp add: getOrCreateSession_def Let_def truthy_def or_default_def create_session_def)

theorem file_session_expiry_witness:
  "fst (getOrCreateSession cfg0 pf0 5000 ''f00d'' (Some ''s1'') expired_file_state) = ''f00d''
   \<and> fst (snd (getOrCreateSession cfg0 pf0 5000 ''f00d'' (Some ''s1'') expired_file_state))
       = new_session ''f00d'' 5000"
proof -
  let ?fs = "\<lparr>sess_id = ''s1'',
             messages = [\<lparr>msg_role = User, msg_content = TextContent ''a red circle''\<rparr>],
             lastImage = None, createdAt = 0, lastUsedAt = 0\<rparr>"
  have l: "loadSessionFromFile cfg0 pf0 ''s1'' (files expired_file_state) = Some ?fs"
    by (simp add: loadSessionFromFile_def cfg0_def expired_file_state_def getSessionFilePath_def
          path_join_def)
  have m: "sessions expired_file_state ''s1'' = None"
    by (simp add: expired_file_state_def)
  have t: "sessionTtlMs cfg0 < 5000 - lastUsedAt ?fs"
    by (simp add: cfg0_def)
  from file_session_expiry [of "''s1''" expired_file_state cfg0 pf0 ?fs 5000 "''f00d''", OF _ m l] t
  show ?thesis by (simp add: create_session_def)
qed

text \<open>An update with no image keeps the last image and appends the user message only.\<close>

theorem update_without_images:
  "lastImage (fst (updateSession cfg pf now key s uc [] st)) = lastImage s
   \<and> appended_messages uc [] = [\<lparr>msg_role = User, msg_content = uc\<rparr>]
   \<and> lastUsedAt (fst (updateSession cfg pf now key s uc [] st)) = now"
  by (simp add: updateSession_def updated_session_def appended_messages_def Let_def)

section \<open>Properties of the request handler\<close>

lemma truthy_iff: "truthy v \<longleftrightarrow> (\<exists>x. v = Some x \<and> x \<noteq> [])"
  by (cases v) (auto simp: truthy_def)

text \<open>
  Claim C10, as amended. (1) When the image argument is a string that is not empty, does
  not parse as a data URL and is not valid base64, \<^verbatim>\<open>parseInputImage\<close> returns no image,
  and the request is built with no input image. (2) When the image argument is a string
  that is not empty, the result depends neither on the session nor on whether it is new.
  (3) When the image argument is absent or the empty string, the result is the session's
  last image if the session is not new and has one, and no image otherwise.
\<close>

theorem parseInputImage_resolution:
  "(\<forall>x. image_argument a = Some x \<and> x \<noteq> [] \<and> parseDataUrl x = None \<and> \<not> isValidBase64 pf x
        \<longrightarrow> parseInputImage pf a isNew s = None
            \<and> p_inputImage (request_params cfg pf a isNew s) = None)
   \<and> ((\<exists>x. image_argument a = Some x \<and> x \<noteq> [])
        \<longrightarrow> (\<forall>isNew' s'. parseInputImage pf a isNew' s' = parseInputImage pf a isNew s))
   \<and> (image_argument a = None \<or> image_argument a = Some []
        \<longrightarrow> parseInputImage pf a isNew s
            = (if \<not> isNew \<and> lastImage s \<noteq> None then lastImage s else None))"
  by (auto simp: parseInputImage_def request_params_def truthy_def or_default_def Let_def
        split: option.splits)

theorem parseInputImage_resolution_witness:
  "parseInputImage pf0 (args0\<lparr>arg_image := Some ''not an image''\<rparr>) False session1 = None
   \<and> lastImage session1 = Some image_a"
proof -
  let ?a = "args0\<lparr>arg_image := Some ''not an image''\<rparr>"
  have "image_argument ?a = Some ''not an image''"
    by (simp add: image_argument_def nullish_def args0_def)
  moreover have "parseDataUrl ''not an image'' = None"
    by (simp add: parseDataUrl_def)
  moreover have "\<not> isValidBase64 pf0 ''not an image''"
    by (simp add: isValidBase64_def pf0_def js_ws_def)
  ultimately have "parseInputImage pf0 ?a False session1 = None"
    using parseInputImage_resolution [of ?a pf0 False session1 cfg0, THEN conjunct1, rule_format,
        of "''not an image''"]
    by simp
  then show ?thesis by (simp add: session1_def)
qed

text \<open>
  Claim C10 as stated fails for an image argument that is supplied as the empty string:
  it is neither a data URL nor valid base64, and on a continuing session the last image
  of the session is the input image.
\<close>

theorem parseInputImage_resolution_counterexample:
  "arg_image (args0\<lparr>arg_image := Some []\<rparr>) = Some []
   \<and> parseDataUrl [] = None
   \<and> \<not> isValidBase64 pf0 []
   \<and> \<not> isNewSession (Some ''s1'') session1
   \<and> parseInputImage pf0 (args0\<lparr>arg_image := Some []\<rparr>) False session1 = Some image_a"
  by (simp add: parseDataUrl_def isValidBase64_def js_trim_def isNewSession_def truthy_def
        parseInputImage_def image_argument_def nullish_def args0_def session1_def)








lemma parsePrompt_args0: "parsePrompt (arg_prompt args0) = ''make it blue''"
  by (simp add: args0_def parsePrompt_def js_trim_def js_ws_def)

lemma parseOutput_args0: "parseOutput cfg0 (arg_output args0) = OutputImage"
  by (simp add: args0_def parseOutput_def cfg0_def js_trim_def js_ws_def to_lower_def)






lemma create_session_keeps:
  "create_session cfg pf now fresh st = (key, s, st1) \<Longrightarrow> sessions st fresh = None
   \<Longrightarrow> sessions st k = Some s0 \<Longrightarrow> sessions st1 k = Some s0"
  by (auto simp: create_session_def)

lemma create_session_holds:
  "create_session cfg pf now fresh st = (key, s, st1) \<Longrightarrow> sessions st1 key = Some s"
  by (auto simp: create_session_def)

lemma getOrCreateSession_holds:
  "getOrCreateSession cfg pf now fresh sessionId st = (key, s, st1) \<Longrightarrow> sessions st1 key = Some s"
  by (auto simp: getOrCreateSession_def Let_def create_session_def
        split: if_splits option.splits)

lemma getOrCreateSession_keeps:
  assumes "getOrCreateSession cfg pf now fresh sessionId st = (key, s, st1)"
    and "sessions st fresh = None" and "sessions st k = Some s0"
  shows "\<exists>s1. sessions st1 k = Some s1 \<and> messages s1 = messages s0 \<and> lastImage s1 = lastImage s0
              \<and> sess_id s1 = sess_id s0"
  using assms
  by (auto simp: getOrCreateSession_def Let_def create_session_def
        split: if_splits option.splits)

lemma handler_throws:
  assumes "handleGenerateImage cfg pf up now later fresh a st = (Inl e, st')"
  shows "\<exists>key s st1 lg.
           getOrCreateSession cfg pf now fresh (session_argument a) st = (key, s, st1)
           \<and> generateImages (imageMode cfg) up
                 (request_params cfg pf a (isNewSession (session_argument a) s) s) (call_log st1)
               = (Inl e, lg)
           \<and> st' = st1\<lparr>call_log := lg\<rparr>"
  using assms
  by (auto simp: handleGenerateImage_def split: if_splits prod.splits sum.splits)

text \<open>
  Claim C3. (1) When the adapter throws, the handler throws the same error, and the state
  is the one in which the session was resolved, with the calls logged. (2) After a throw
  the map holds the resolved session as it was resolved, and neither the map nor the files
  have changed since. (3) After a throw every session that was in the map before the
  request is still there with the same messages, the same last image and the same id
  (given that the fresh identifier is not one in use). (4) After a throw in a request for
  a session that was loaded from its file, the files are as before the request and the
  map holds the session as loaded. (5) After a throw in a request for a session that was
  in the map, the files are as before the request and the map holds that session with
  nothing but the time of its last use changed.
\<close>

theorem failed_generation_keeps_session:
  "(\<forall>key s st1 e lg.
       parsePrompt (arg_prompt a) \<noteq> []
       \<and> getOrCreateSession cfg pf now fresh (session_argument a) st = (key, s, st1)
       \<and> \<not> (parseOutput cfg (arg_output a) = OutputPath \<and> out_dir cfg pf a = [])
       \<and> generateImages (imageMode cfg) up
             (request_params cfg pf a (isNewSession (session_argument a) s) s) (call_log st1)
           = (Inl e, lg)
     \<longrightarrow> handleGenerateImage cfg pf up now later fresh a st = (Inl e, st1\<lparr>call_log := lg\<rparr>))
   \<and> (\<forall>e st' key s st1.
       handleGenerateImage cfg pf up now later fresh a st = (Inl e, st')
       \<and> getOrCreateSession cfg pf now fresh (session_argument a) st = (key, s, st1)
     \<longrightarrow> sessions st' key = Some s \<and> sessions st' = sessions st1 \<and> files st' = files st1)
   \<and> (\<forall>e st' k s0.
       handleGenerateImage cfg pf up now later fresh a st = (Inl e, st')
       \<and> sessions st fresh = None \<and> sessions st k = Some s0
     \<longrightarrow> (\<exists>s1. sessions st' k = Some s1 \<and> messages s1 = messages s0
               \<and> lastImage s1 = lastImage s0 \<and> sess_id s1 = sess_id s0))
   \<and> (\<forall>e st' sid fileSession.
       handleGenerateImage cfg pf up now later fresh a st = (Inl e, st')
       \<and> session_argument a = Some sid \<and> sid \<noteq> [] \<and> sessions st sid = None
       \<and> loadSessionFromFile cfg pf sid (files st) = Some fileSession
       \<and> now - lastUsedAt fileSession \<le> sessionTtlMs cfg
     \<longrightarrow> files st' = files st \<and> sessions st' sid = Some (fileSession\<lparr>lastUsedAt := now\<rparr>))
   \<and> (\<forall>e st' sid s0.
       handleGenerateImage cfg pf up now later fresh a st = (Inl e, st')
       \<and> session_argument a = Some sid \<and> sid \<noteq> [] \<and> sessions st sid = Some s0
     \<longrightarrow> files st' = files st \<and> sessions st' sid = Some (s0\<lparr>lastUsedAt := now\<rparr>))"
proof (intro conjI allI impI)
  fix key s st1 e lg
  assume "parsePrompt (arg_prompt a) \<noteq> []
       \<and> getOrCreateSession cfg pf now fresh (session_argument a) st = (key, s, st1)
       \<and> \<not> (parseOutput cfg (arg_output a) = OutputPath \<and> out_dir cfg pf a = [])
       \<and> generateImages (imageMode cfg) up
             (request_params cfg pf a (isNewSession (session_argument a) s) s) (call_log st1)
           = (Inl e, lg)"
  then show "handleGenerateImage cfg pf up now later fresh a st = (Inl e, st1\<lparr>call_log := lg\<rparr>)"
    by (auto simp: handleGenerateImage_def)
next
  fix e st' key s st1
  assume h: "handleGenerateImage cfg pf up now later fresh a st = (Inl e, st')
       \<and> getOrCreateSession cfg pf now fresh (session_argument a) st = (key, s, st1)"
  with handler_throws [of cfg pf up now later fresh a st e st']
  obtain lg where st': "st' = st1\<lparr>call_log := lg\<rparr>" by auto
  from h getOrCreateSession_holds [of cfg pf now fresh "session_argument a" st key s st1]
  have "sessions st1 key = Some s" by simp
  with st' show "sessions st' key = Some s" by simp
  from st' show "sessions st' = sessions st1" by simp
  from st' show "files st' = files st1" by simp
next
  fix e st' k s0
  assume h: "handleGenerateImage cfg pf up now later fresh a st = (Inl e, st')
       \<and> sessions st fresh = None \<and> sessions st k = Some s0"
  with handler_throws [of cfg pf up now later fresh a st e st']
  obtain key s st1 lg where
    g: "getOrCreateSession cfg pf now fresh (session_argument a) st = (key, s, st1)"
    and st': "st' = st1\<lparr>call_log := lg\<rparr>" by auto
  from getOrCreateSession_keeps [OF g, of k s0] h
  obtain s1 where "sessions st1 k = Some s1" "messages s1 = messages s0"
    "lastImage s1 = lastImage s0" "sess_id s1 = sess_id s0" by auto
  with st' show "\<exists>s1. sessions st' k = Some s1 \<and> messages s1 = messages s0
               \<and> lastImage s1 = lastImage s0 \<and> sess_id s1 = sess_id s0" by simp
next
  fix e st' sid fileSession
  assume h: "handleGenerateImage cfg pf up now later fresh a st = (Inl e, st')
       \<and> session_argument a = Some sid \<and> sid \<noteq> [] \<and> sessions st sid = None
       \<and> loadSessionFromFile cfg pf sid (files st) = Some fileSession
       \<and> now - lastUsedAt fileSession \<le> sessionTtlMs cfg"
  then have g: "getOrCreateSession cfg pf now fresh (session_argument a) st
      = (sid, fileSession\<lparr>lastUsedAt := now\<rparr>,
         st\<lparr>sessions := (sessions st)(sid \<mapsto> fileSession\<lparr>lastUsedAt := now\<rparr>)\<rparr>)"
    by (simp add: getOrCreateSession_def Let_def truthy_def or_default_def)
  with h handler_throws [of cfg pf up now later fresh a st e st']
  obtain lg where st': "st' = st\<lparr>sessions := (sessions st)(sid \<mapsto> fileSession\<lparr>lastUsedAt := now\<rparr>),
                              call_log := lg\<rparr>"
    by auto
  from st' show "files st' = files st" by simp
  from st' show "sessions st' sid = Some (fileSession\<lparr>lastUsedAt := now\<rparr>)" by simp
next
  fix e st' sid s0
  assume h: "handleGenerateImage cfg pf up now later fresh a st = (Inl e, st')
       \<and> session_argument a = Some sid \<and> sid \<noteq> [] \<and> sessions st sid = Some s0"
  then have g: "getOrCreateSession cfg pf now fresh (session_argument a) st
      = (sid, s0\<lparr>lastUsedAt := now\<rparr>,
         st\<lparr>sessions := (sessions st)(sid \<mapsto> s0\<lparr>lastUsedAt := now\<rparr>)\<rparr>)"
    by (simp add: getOrCreateSession_def Let_def truthy_def or_default_def)
  with h handler_throws [of cfg pf up now later fresh a st e st']
  obtain lg where st': "st' = st\<lparr>sessions := (sessions st)(sid \<mapsto> s0\<lparr>lastUsedAt := now\<rparr>),
                              call_log := lg\<rparr>"
    by auto
  from st' show "files st' = files st" by simp
  from st' show "sessions st' sid = Some (s0\<lparr>lastUsedAt := now\<rparr>)" by simp
qed

theorem failed_generation_keeps_session_witness:
  "fst (handleGenerateImage cfg0 pf0 native_only 5 6 ''f00d'' args_s1 stale_state)
     = Inl (HttpError 500 ''unavailable'')
   \<and> (\<exists>s1. sessions (snd (handleGenerateImage cfg0 pf0 native_only 5 6 ''f00d'' args_s1 stale_state)) ''s1''
            = Some s1
          \<and> messages s1 = messages session1 \<and> lastImage s1 = lastImage session1
          \<and> sess_id s1 = sess_id session1)"
proof -
  let ?h = "handleGenerateImage cfg0 pf0 native_only 5 6 ''f00d'' args_s1 stale_state"
  have sa: "session_argument args_s1 = Some ''s1''"
    by (simp add: session_argument_def nullish_def args_s1_def args0_def)
  have pp: "parsePrompt (arg_prompt args_s1) = ''make it blue''"
    by (simp add: args_s1_def parsePrompt_args0)
  have po: "parseOutput cfg0 (arg_output args_s1) = OutputImage"
    by (simp add: args_s1_def parseOutput_args0)
  have g: "getOrCreateSession cfg0 pf0 5 ''f00d'' (Some ''s1'') stale_state
      = (''s1'', session1\<lparr>lastUsedAt := 5\<rparr>,
         stale_state\<lparr>sessions := (sessions stale_state)(''s1'' \<mapsto> session1\<lparr>lastUsedAt := 5\<rparr>)\<rparr>)"
    by (simp add: getOrCreateSession_def Let_def stale_state_def truthy_def or_default_def)
  have chat: "generateImagesViaChatCompletions native_only ps l
      = (Inl (HttpError 500 ''unavailable''), l @ [ChatCompletions])" for ps l
    by (simp add: generateImagesViaChatCompletions_def native_only_def res_ok_def)
  have gen: "generateImages (imageMode cfg0) native_only ps l
      = (Inl (HttpError 500 ''unavailable''), l @ [ChatCompletions])" for ps l
    using chat [of ps l] count_pos [of "p_n ps"]
    by (simp add: cfg0_def generateImages_chat gm_first_call_throws)
  have r: "?h = (Inl (HttpError 500 ''unavailable''),
      stale_state\<lparr>sessions := (sessions stale_state)(''s1'' \<mapsto> session1\<lparr>lastUsedAt := 5\<rparr>),
                   call_log := call_log stale_state @ [ChatCompletions]\<rparr>)"
    using failed_generation_keeps_session [of args_s1 cfg0 pf0 5 "''f00d''" stale_state native_only 6,
        THEN conjunct1, rule_format,
        of "''s1''" "session1\<lparr>lastUsedAt := 5\<rparr>"
           "stale_state\<lparr>sessions := (sessions stale_state)(''s1'' \<mapsto> session1\<lparr>lastUsedAt := 5\<rparr>)\<rparr>"
           "HttpError 500 ''unavailable''" "call_log stale_state @ [ChatCompletions]"]
    by (simp add: sa pp po g gen)
  have "sessions stale_state ''f00d'' = None \<and> sessions stale_state ''s1'' = Some session1"
    by (simp add: stale_state_def)
  with r failed_generation_keeps_session [of args_s1 cfg0 pf0 5 "''f00d''" stale_state native_only 6,
        THEN conjunct2, THEN conjunct2, THEN conjunct1, rule_format,
        of "HttpError 500 ''unavailable''" "snd ?h" "''s1''" session1]
  have "\<exists>s1. sessions (snd ?h) ''s1'' = Some s1 \<and> messages s1 = messages session1
      \<and> lastImage s1 = lastImage session1 \<and> sess_id s1 = sess_id session1"
    by simp
  with r show ?thesis by simp
qed

end
